theory Spec2Isabelle
  imports Main "HOL-Library.Multiset" "HOL-Library.Product_Lexorder"
begin

section \<open>Exceptions and the standard library\<close>

text \<open>
  The exceptions that the modelled code can let escape. A raise is the \<open>Inl\<close> branch of a
  result of type \<open>error + 'a\<close>.
\<close>

datatype error =
    KeyError | ValueError | OverflowError | TypeError | UnicodeDecodeError | RecursionError

subsection \<open>Naive datetimes\<close>

text \<open>
  A naive \<open>datetime\<close> is its proleptic Gregorian ordinal (day 1 is 0001-01-01, as
  \<open>toordinal()\<close> gives it) paired with the microsecond of the day. Python orders naive
  datetimes lexicographically on exactly this pair. \<open>datetime + timedelta(days=k)\<close> moves
  the ordinal and raises \<open>OverflowError\<close> outside the years 1..9999.
\<close>

type_synonym datetime = "int \<times> nat"

definition MAXORDINAL :: int where
  "MAXORDINAL = 3652059"

definition add_days :: "datetime \<Rightarrow> int \<Rightarrow> error + datetime" where
  "add_days dt k =
     (let n = fst dt + k
      in if 1 \<le> n \<and> n \<le> MAXORDINAL then Inr (n, snd dt) else Inl OverflowError)"

subsection \<open>The calendar, for evaluating examples\<close>

text \<open>
  \<open>datetime.fromisoformat\<close> and \<open>strftime('%Y-%m-%d')\<close> are parameters of the operations
  below, so that every general theorem holds whatever the installed library accepts. The
  definitions of this subsection are one instance, used to evaluate concrete runs: the
  calendar arithmetic of CPython's \<open>datetime\<close> and a parser for the strings that
  \<open>isoformat()\<close> and \<open>strftime('%Y-%m-%d')\<close> emit (date only, date and \<open>HH:MM:SS\<close>, date
  and \<open>HH:MM:SS.ffffff\<close>).
\<close>

definition is_leap :: "int \<Rightarrow> bool" where
  "is_leap year = (year mod 4 = 0 \<and> (year mod 100 \<noteq> 0 \<or> year mod 400 = 0))"

definition days_before_year :: "int \<Rightarrow> int" where
  "days_before_year year =
     (let y = year - 1 in y * 365 + y div 4 - y div 100 + y div 400)"

definition DAYS_IN_MONTH :: "int list" where
  "DAYS_IN_MONTH = [-1, 31, 28, 31, 30, 31, 30, 31, 31, 30, 31, 30, 31]"

definition DAYS_BEFORE_MONTH :: "int list" where
  "DAYS_BEFORE_MONTH = [-1, 0, 31, 59, 90, 120, 151, 181, 212, 243, 273, 304, 334]"

definition days_in_month :: "int \<Rightarrow> int \<Rightarrow> int" where
  "days_in_month year month =
     (if month = 2 \<and> is_leap year then 29 else DAYS_IN_MONTH ! nat month)"

definition days_before_month :: "int \<Rightarrow> int \<Rightarrow> int" where
  "days_before_month year month =
     DAYS_BEFORE_MONTH ! nat month + (if month > 2 \<and> is_leap year then 1 else 0)"

definition ymd2ord :: "int \<Rightarrow> int \<Rightarrow> int \<Rightarrow> int" where
  "ymd2ord year month day =
     days_before_year year + days_before_month year month + day"

definition ord2ymd :: "int \<Rightarrow> int \<times> int \<times> int" where
  "ord2ymd n0 =
     (let n = n0 - 1;
          n400 = n div 146097; n = n mod 146097;
          year = n400 * 400 + 1;
          n100 = n div 36524; n = n mod 36524;
          n4 = n div 1461; n = n mod 1461;
          n1 = n div 365; n = n mod 365;
          year = year + n100 * 100 + n4 * 4 + n1
      in if n1 = 4 \<or> n100 = 4 then (year - 1, 12, 31)
         else
           let leapyear = (n1 = 3 \<and> (n4 \<noteq> 24 \<or> n100 = 3));
               month = (n + 50) div 32;
               preceding = DAYS_BEFORE_MONTH ! nat month
                           + (if month > 2 \<and> leapyear then 1 else 0)
           in if preceding > n
              then let month = month - 1;
                       preceding = preceding
                         - (DAYS_IN_MONTH ! nat month
                            + (if month = 2 \<and> leapyear then 1 else 0))
                   in (year, month, n - preceding + 1)
              else (year, month, n - preceding + 1))"

definition digit_of :: "char \<Rightarrow> nat option" where
  "digit_of c = map_of (zip ''0123456789'' [0, 1, 2, 3, 4, 5, 6, 7, 8, 9]) c"

fun number_of :: "nat \<Rightarrow> string \<Rightarrow> nat option" where
  "number_of acc [] = Some acc"
| "number_of acc (c # cs) =
     (case digit_of c of None \<Rightarrow> None | Some d \<Rightarrow> number_of (acc * 10 + d) cs)"

definition field :: "nat \<Rightarrow> nat \<Rightarrow> string \<Rightarrow> nat option" where
  "field pos len s = number_of 0 (take len (drop pos s))"

definition parse_date :: "string \<Rightarrow> error + int" where
  "parse_date s =
     (case (field 0 4 s, field 5 2 s, field 8 2 s) of
        (Some y, Some mo, Some d) \<Rightarrow>
          if s ! 4 = CHR ''-'' \<and> s ! 7 = CHR ''-'' \<and> 1 \<le> y \<and> 1 \<le> mo \<and> mo \<le> 12
             \<and> 1 \<le> d \<and> int d \<le> days_in_month (int y) (int mo)
          then Inr (ymd2ord (int y) (int mo) (int d))
          else Inl ValueError
      | _ \<Rightarrow> Inl ValueError)"

definition parse_time :: "string \<Rightarrow> error + nat" where
  "parse_time s =
     (case (field 0 2 s, field 3 2 s, field 6 2 s) of
        (Some h, Some mi, Some sec) \<Rightarrow>
          if s ! 2 = CHR '':'' \<and> s ! 5 = CHR '':'' \<and> h < 24 \<and> mi < 60 \<and> sec < 60
          then Inr (((h * 60 + mi) * 60 + sec) * 1000000)
          else Inl ValueError
      | _ \<Rightarrow> Inl ValueError)"

definition fromisoformat :: "string \<Rightarrow> error + datetime" where
  "fromisoformat s =
     (if length s = 10 then
        (case parse_date s of Inl e \<Rightarrow> Inl e | Inr n \<Rightarrow> Inr (n, 0))
      else if length s = 19 then
        (case parse_date (take 10 s) of Inl e \<Rightarrow> Inl e
         | Inr n \<Rightarrow>
             (case parse_time (drop 11 s) of Inl e \<Rightarrow> Inl e | Inr us \<Rightarrow> Inr (n, us)))
      else if length s = 26 then
        (case parse_date (take 10 s) of Inl e \<Rightarrow> Inl e
         | Inr n \<Rightarrow>
             (case parse_time (take 8 (drop 11 s)) of Inl e \<Rightarrow> Inl e
              | Inr us \<Rightarrow>
                  (case field 20 6 s of
                     Some f \<Rightarrow> if s ! 19 = CHR ''.'' then Inr (n, us + f) else Inl ValueError
                   | None \<Rightarrow> Inl ValueError)))
      else Inl ValueError)"

definition digit_char :: "nat \<Rightarrow> char" where
  "digit_char n = ''0123456789'' ! (n mod 10)"

definition pad2 :: "nat \<Rightarrow> string" where
  "pad2 n = [digit_char (n div 10), digit_char n]"

text \<open>
  \<open>%Y\<close> as the C library's \<open>strftime\<close> prints it under CPython on Linux: the year
  without padding (\<open>999-12-31\<close>), four digits from the year 1000 on.
\<close>

definition year_digits :: "nat \<Rightarrow> string" where
  "year_digits y =
     (if y < 10 then [digit_char y]
      else if y < 100 then [digit_char (y div 10), digit_char y]
      else if y < 1000 then [digit_char (y div 100), digit_char (y div 10), digit_char y]
      else [digit_char (y div 1000), digit_char (y div 100), digit_char (y div 10),
            digit_char y])"

definition strftime_ymd :: "datetime \<Rightarrow> string" where
  "strftime_ymd dt =
     (case ord2ymd (fst dt) of
        (y, mo, d) \<Rightarrow> year_digits (nat y) @ ''-'' @ pad2 (nat mo) @ ''-'' @ pad2 (nat d))"

section \<open>The command-line todo manager with a JSON store\<close>

subsection \<open>TodoItem\<close>

record TodoItem =
  item_id :: int
  title :: string
  description :: string
  completed :: bool
  priority :: string
  category :: string
  due_date :: string
  recurring_pattern :: string
  created_at :: string
  updated_at :: string

text \<open>
  \<open>TodoItem.__init__\<close>. The two last arguments are the readings of
  \<open>datetime.now().isoformat()\<close> that the constructor makes: \<open>now_c\<close> for \<open>created_at\<close>
  (used only when the argument is \<open>None\<close> or empty) and \<open>now_u\<close> for \<open>updated_at\<close>.
\<close>

definition TodoItem_init ::
  "int \<Rightarrow> string \<Rightarrow> string \<Rightarrow> bool \<Rightarrow> string option \<Rightarrow> string \<Rightarrow> string \<Rightarrow> string \<Rightarrow> string
     \<Rightarrow> string \<Rightarrow> string \<Rightarrow> TodoItem" where
  "TodoItem_init i ttl descr compl created prio cat due rec now_c now_u =
     \<lparr> item_id = i,
       title = ttl,
       description = descr,
       completed = compl,
       priority = (if prio \<in> set [''High'', ''Medium'', ''Low''] then prio else ''Medium''),
       category = cat,
       due_date = due,
       recurring_pattern = rec,
       created_at = (case created of None \<Rightarrow> now_c
                     | Some c \<Rightarrow> if c \<noteq> [] then c else now_c),
       updated_at = now_u \<rparr>"

text \<open>
  The dictionary of \<open>to_dict\<close> and \<open>from_dict\<close>: its key set is fixed, so it is a record
  of optional entries, \<open>None\<close> for a key that is absent. Values carry the types of the
  constructor's annotations.
\<close>

record item_dict =
  dict_id :: "int option"
  dict_title :: "string option"
  dict_description :: "string option"
  dict_completed :: "bool option"
  dict_priority :: "string option"
  dict_category :: "string option"
  dict_due_date :: "string option"
  dict_recurring_pattern :: "string option"
  dict_created_at :: "string option"
  dict_updated_at :: "string option"

definition to_dict :: "TodoItem \<Rightarrow> item_dict" where
  "to_dict t =
     \<lparr> dict_id = Some (item_id t),
       dict_title = Some (title t),
       dict_description = Some (description t),
       dict_completed = Some (completed t),
       dict_priority = Some (priority t),
       dict_category = Some (category t),
       dict_due_date = Some (due_date t),
       dict_recurring_pattern = Some (recurring_pattern t),
       dict_created_at = Some (created_at t),
       dict_updated_at = Some (updated_at t) \<rparr>"

definition get_or :: "'a option \<Rightarrow> 'a \<Rightarrow> 'a" where
  "get_or v dflt = (case v of None \<Rightarrow> dflt | Some x \<Rightarrow> x)"

text \<open>
  \<open>from_dict\<close>: \<open>data['id']\<close> and \<open>data['title']\<close> raise \<open>KeyError\<close> when the key is
  absent, every other key has a default. \<open>now_d\<close> is the clock reading made for the
  default of \<open>updated_at\<close>.
\<close>

definition from_dict :: "string \<Rightarrow> string \<Rightarrow> string \<Rightarrow> item_dict \<Rightarrow> error + TodoItem" where
  "from_dict now_c now_u now_d data =
     (case dict_id data of
        None \<Rightarrow> Inl KeyError
      | Some i \<Rightarrow>
          (case dict_title data of
             None \<Rightarrow> Inl KeyError
           | Some ttl \<Rightarrow>
               let item = TodoItem_init i ttl
                            (get_or (dict_description data) [])
                            (get_or (dict_completed data) False)
                            (dict_created_at data)
                            (get_or (dict_priority data) ''Medium'')
                            (get_or (dict_category data) [])
                            (get_or (dict_due_date data) [])
                            (get_or (dict_recurring_pattern data) [])
                            now_c now_u
               in Inr (item\<lparr>updated_at := get_or (dict_updated_at data) now_d\<rparr>)))"

subsection \<open>TodoManager\<close>

text \<open>
  The storage file as \<open>open\<close> and \<open>json.load\<close> meet it:
  \<^item> \<open>NoFile\<close>: the path does not exist;
  \<^item> \<open>Undecodable\<close>: bytes that are not text in the encoding of \<open>open\<close>, so that reading
    raises \<open>UnicodeDecodeError\<close>;
  \<^item> \<open>Unparseable\<close>: text that is not JSON, on which \<open>json.load\<close> raises
    \<open>JSONDecodeError\<close>;
  \<^item> \<open>TooDeep\<close>: JSON nested beyond the recursion limit, on which \<open>json.load\<close> raises
    \<open>RecursionError\<close>;
  \<^item> \<open>Scalar\<close>: a number, \<open>true\<close>, \<open>false\<close> or \<open>null\<close>, which the comprehension cannot
    iterate (\<open>TypeError\<close>);
  \<^item> \<open>Stored\<close>: a sequence of elements, that is an array, or the characters of a string
    or the keys of an object, which the comprehension iterates alike.

  An element is an item dictionary, or anything else, on which \<open>data['id']\<close> raises
  \<open>TypeError\<close>. The manager's state is its two attributes together with the file it writes
  and the lines it prints.
\<close>

datatype element = Dict item_dict | NotDict

datatype json_file = NoFile | Undecodable | Unparseable | TooDeep | Scalar | Stored "element list"

record TodoManager =
  todos :: "TodoItem list"
  next_id :: int
  storage :: json_file
  stdout :: "string list"

definition py_print :: "string \<Rightarrow> TodoManager \<Rightarrow> TodoManager" where
  "py_print s m = m\<lparr>stdout := stdout m @ [s]\<rparr>"

fun max_of :: "int \<Rightarrow> int list \<Rightarrow> int" where
  "max_of a [] = a"
| "max_of a (x # xs) = max_of (if x > a then x else a) xs"

definition update_next_id :: "TodoManager \<Rightarrow> TodoManager" where
  "update_next_id m =
     (case todos m of
        [] \<Rightarrow> m\<lparr>next_id := 1\<rparr>
      | t # ts \<Rightarrow> m\<lparr>next_id := max_of (item_id t) (map item_id ts) + 1\<rparr>)"

definition validate_priority :: "string \<Rightarrow> bool" where
  "validate_priority prio = (prio \<in> set [''High'', ''Medium'', ''Low''])"

definition is_digit :: "char \<Rightarrow> bool" where
  "is_digit c = (digit_of c \<noteq> None)"

text \<open>
  The pattern \<open>^\d{4}-\d{2}-\d{2}$\<close> under \<open>re.match\<close>: \<open>$\<close> also matches before a final
  newline.
\<close>

definition date_shape :: "string \<Rightarrow> bool" where
  "date_shape s =
     (length s = 10 \<and> list_all is_digit (take 4 s) \<and> s ! 4 = CHR ''-''
      \<and> list_all is_digit (take 2 (drop 5 s)) \<and> s ! 7 = CHR ''-''
      \<and> list_all is_digit (drop 8 s))"

definition validate_date_format :: "string \<Rightarrow> bool" where
  "validate_date_format date_str =
     (if date_str = [] then True
      else date_shape date_str
           \<or> (length date_str = 11 \<and> last date_str = CHR 0x0A \<and> date_shape (butlast date_str)))"

definition validate_recurring_pattern :: "string \<Rightarrow> bool" where
  "validate_recurring_pattern pat = (pat \<in> set [[], ''Daily'', ''Weekly'', ''Monthly''])"

text \<open>The array that \<open>json.dump\<close> writes: \<open>[todo.to_dict() for todo in self.todos]\<close>.\<close>

definition dump :: "TodoItem list \<Rightarrow> element list" where
  "dump ts = map (\<lambda>todo. Dict (to_dict todo)) ts"

definition save_todos :: "TodoManager \<Rightarrow> TodoManager" where
  "save_todos m = m\<lparr>storage := Stored (dump (todos m))\<rparr>"

text \<open>
  The list comprehension of \<open>load_todos\<close>: the first element that raises ends it. \<open>clk\<close>
  gives the clock readings that remain; each item has three slots.
\<close>

fun from_dicts :: "(nat \<Rightarrow> string) \<Rightarrow> element list \<Rightarrow> error + TodoItem list" where
  "from_dicts clk [] = Inr []"
| "from_dicts clk (NotDict # es) = Inl TypeError"
| "from_dicts clk (Dict d # es) =
     (case from_dict (clk 0) (clk 1) (clk 2) d of
        Inl e \<Rightarrow> Inl e
      | Inr t \<Rightarrow>
          (case from_dicts (\<lambda>n. clk (n + 3)) es of
             Inl e \<Rightarrow> Inl e
           | Inr ts \<Rightarrow> Inr (t # ts)))"

text \<open>
  \<open>load_todos\<close>. The \<open>except\<close> clause names \<open>JSONDecodeError\<close> and \<open>KeyError\<close>: these two
  empty the collection, every other exception leaves the method (\<open>Inl\<close>) with the
  attributes as they were.
\<close>

definition load_todos :: "(nat \<Rightarrow> string) \<Rightarrow> TodoManager \<Rightarrow> error + TodoManager" where
  "load_todos clk m =
     (case storage m of
        NoFile \<Rightarrow> Inr m
      | Undecodable \<Rightarrow> Inl UnicodeDecodeError
      | Unparseable \<Rightarrow> Inr (m\<lparr>todos := [], next_id := 1\<rparr>)
      | TooDeep \<Rightarrow> Inl RecursionError
      | Scalar \<Rightarrow> Inl TypeError
      | Stored es \<Rightarrow>
          (case from_dicts clk es of
             Inl e \<Rightarrow> if e = KeyError then Inr (m\<lparr>todos := [], next_id := 1\<rparr>) else Inl e
           | Inr ts \<Rightarrow> Inr (update_next_id (m\<lparr>todos := ts\<rparr>))))"

text \<open>\<open>TodoManager.__init__\<close>: an exception of \<open>load_todos\<close> leaves the constructor.\<close>

definition TodoManager_init :: "(nat \<Rightarrow> string) \<Rightarrow> json_file \<Rightarrow> error + TodoManager" where
  "TodoManager_init clk f =
     (case load_todos clk \<lparr> todos = [], next_id = 1, storage = f, stdout = [] \<rparr> of
        Inl e \<Rightarrow> Inl e
      | Inr m \<Rightarrow> Inr (update_next_id m))"

text \<open>The position at which a \<open>for todo in self.todos: if todo.id == todo_id\<close> loop stops.\<close>

fun first_with_id :: "int \<Rightarrow> TodoItem list \<Rightarrow> nat option" where
  "first_with_id todo_id [] = None"
| "first_with_id todo_id (t # ts) =
     (if item_id t = todo_id then Some 0
      else (case first_with_id todo_id ts of None \<Rightarrow> None | Some i \<Rightarrow> Some (Suc i)))"

definition add_todo ::
  "(nat \<Rightarrow> string) \<Rightarrow> string \<Rightarrow> string \<Rightarrow> string \<Rightarrow> string \<Rightarrow> string \<Rightarrow> string \<Rightarrow> TodoManager
     \<Rightarrow> TodoItem option \<times> TodoManager" where
  "add_todo clk ttl descr prio cat due rec m =
     (if \<not> validate_priority prio then
        (None, py_print (''Invalid priority: '' @ prio @ ''. Must be one of: High, Medium, Low'') m)
      else if \<not> validate_date_format due then
        (None, py_print (''Invalid date format: '' @ due @ ''. Expected format: YYYY-MM-DD'') m)
      else if \<not> validate_recurring_pattern rec then
        (None, py_print (''Invalid recurring pattern: '' @ rec
                          @ ''. Must be one of: Daily, Weekly, Monthly, or empty'') m)
      else
        let todo = TodoItem_init (next_id m) ttl descr False None prio cat due rec (clk 0) (clk 1);
            m1 = m\<lparr>todos := todos m @ [todo]\<rparr>;
            m2 = m1\<lparr>next_id := next_id m1 + 1\<rparr>
        in (Some todo, save_todos m2))"

definition remove_todo :: "int \<Rightarrow> TodoManager \<Rightarrow> bool \<times> TodoManager" where
  "remove_todo todo_id m =
     (case first_with_id todo_id (todos m) of
        None \<Rightarrow> (False, m)
      | Some i \<Rightarrow>
          (True, save_todos (m\<lparr>todos := take i (todos m) @ drop (Suc i) (todos m)\<rparr>)))"

text \<open>
  The due date of the regenerated task:
  \<open>(datetime.fromisoformat(due) + timedelta(days=k)).strftime('%Y-%m-%d') if due else ""\<close>.
\<close>

definition next_due ::
  "(string \<Rightarrow> error + datetime) \<Rightarrow> (datetime \<Rightarrow> string) \<Rightarrow> string \<Rightarrow> int \<Rightarrow> error + string" where
  "next_due fromiso strf due k =
     (if due \<noteq> [] then
        (case fromiso due of
           Inl e \<Rightarrow> Inl e
         | Inr dt \<Rightarrow> (case add_days dt k of Inl e \<Rightarrow> Inl e | Inr dt' \<Rightarrow> Inr (strf dt')))
      else Inr [])"

text \<open>
  \<open>_create_recurring_task\<close>. The result is \<open>Inl e\<close> when the date arithmetic raises, and
  else the manager after the call (unchanged when the pattern is none of the three).
\<close>

definition create_recurring_task ::
  "(string \<Rightarrow> error + datetime) \<Rightarrow> (datetime \<Rightarrow> string) \<Rightarrow> string \<Rightarrow> string \<Rightarrow> TodoItem
     \<Rightarrow> TodoManager \<Rightarrow> error + TodoManager" where
  "create_recurring_task fromiso strf now_c now_u completed_todo m =
     (case (if recurring_pattern completed_todo = ''Daily''
              then Some (next_due fromiso strf (due_date completed_todo) 1)
            else if recurring_pattern completed_todo = ''Weekly''
              then Some (next_due fromiso strf (due_date completed_todo) 7)
            else if recurring_pattern completed_todo = ''Monthly''
              then Some (next_due fromiso strf (due_date completed_todo) 30)
            else None) of
        None \<Rightarrow> Inr m
      | Some (Inl e) \<Rightarrow> Inl e
      | Some (Inr nd) \<Rightarrow>
          let new_todo = TodoItem_init (next_id m) (title completed_todo)
                           (description completed_todo) False None (priority completed_todo)
                           (category completed_todo) nd (recurring_pattern completed_todo)
                           now_c now_u;
              m1 = m\<lparr>todos := todos m @ [new_todo]\<rparr>;
              m2 = m1\<lparr>next_id := next_id m1 + 1\<rparr>
          in Inr (save_todos m2))"

text \<open>
  \<open>toggle_completion\<close>. When the date arithmetic raises, the exception leaves the method
  after the item was toggled in memory and before \<open>save_todos\<close>.
\<close>

definition toggle_completion ::
  "(string \<Rightarrow> error + datetime) \<Rightarrow> (datetime \<Rightarrow> string) \<Rightarrow> (nat \<Rightarrow> string) \<Rightarrow> int
     \<Rightarrow> TodoManager \<Rightarrow> (error + bool) \<times> TodoManager" where
  "toggle_completion fromiso strf clk todo_id m =
     (case first_with_id todo_id (todos m) of
        None \<Rightarrow> (Inr False, m)
      | Some i \<Rightarrow>
          let todo = (todos m ! i)\<lparr>completed := \<not> completed (todos m ! i), updated_at := clk 0\<rparr>;
              m1 = m\<lparr>todos := (todos m)[i := todo]\<rparr>
          in if completed todo \<and> recurring_pattern todo \<noteq> [] then
               (case create_recurring_task fromiso strf (clk 1) (clk 2) todo m1 of
                  Inl e \<Rightarrow> (Inl e, m1)
                | Inr m2 \<Rightarrow> (Inr True, save_todos m2))
             else (Inr True, save_todos m1))"

text \<open>
  The guarded assignments of \<open>update_todo\<close>: \<open>Inl\<close> carries the message printed when the
  value is rejected.
\<close>

definition set_priority :: "string option \<Rightarrow> TodoItem \<Rightarrow> string + TodoItem" where
  "set_priority prio t =
     (case prio of
        None \<Rightarrow> Inr t
      | Some v \<Rightarrow>
          if validate_priority v then Inr (t\<lparr>priority := v\<rparr>)
          else Inl (''Invalid priority: '' @ v @ ''. Must be one of: High, Medium, Low''))"

definition set_due_date :: "string option \<Rightarrow> TodoItem \<Rightarrow> string + TodoItem" where
  "set_due_date due t =
     (case due of
        None \<Rightarrow> Inr t
      | Some v \<Rightarrow>
          if validate_date_format v then Inr (t\<lparr>due_date := v\<rparr>)
          else Inl (''Invalid date format: '' @ v @ ''. Expected format: YYYY-MM-DD''))"

definition set_recurring_pattern :: "string option \<Rightarrow> TodoItem \<Rightarrow> string + TodoItem" where
  "set_recurring_pattern rec t =
     (case rec of
        None \<Rightarrow> Inr t
      | Some v \<Rightarrow>
          if validate_recurring_pattern v then Inr (t\<lparr>recurring_pattern := v\<rparr>)
          else Inl (''Invalid recurring pattern: '' @ v
                     @ ''. Must be one of: Daily, Weekly, Monthly, or empty''))"

definition put :: "nat \<Rightarrow> TodoItem \<Rightarrow> TodoManager \<Rightarrow> TodoManager" where
  "put i t m = m\<lparr>todos := (todos m)[i := t]\<rparr>"

definition update_todo ::
  "(nat \<Rightarrow> string) \<Rightarrow> int \<Rightarrow> string option \<Rightarrow> string option \<Rightarrow> string option \<Rightarrow> string option
     \<Rightarrow> string option \<Rightarrow> string option \<Rightarrow> TodoManager \<Rightarrow> bool \<times> TodoManager" where
  "update_todo clk todo_id ttl descr prio cat due rec m =
     (case first_with_id todo_id (todos m) of
        None \<Rightarrow> (False, m)
      | Some i \<Rightarrow>
          let t0 = todos m ! i;
              t1 = (case ttl of None \<Rightarrow> t0 | Some v \<Rightarrow> t0\<lparr>title := v\<rparr>);
              t2 = (case descr of None \<Rightarrow> t1 | Some v \<Rightarrow> t1\<lparr>description := v\<rparr>)
          in (case set_priority prio t2 of
                Inl msg \<Rightarrow> (False, py_print msg (put i t2 m))
              | Inr t3 \<Rightarrow>
                  let t4 = (case cat of None \<Rightarrow> t3 | Some v \<Rightarrow> t3\<lparr>category := v\<rparr>)
                  in (case set_due_date due t4 of
                        Inl msg \<Rightarrow> (False, py_print msg (put i t4 m))
                      | Inr t5 \<Rightarrow>
                          (case set_recurring_pattern rec t5 of
                             Inl msg \<Rightarrow> (False, py_print msg (put i t5 m))
                           | Inr t6 \<Rightarrow>
                               (True, save_todos (put i (t6\<lparr>updated_at := clk 0\<rparr>) m))))))"

definition get_todo :: "int \<Rightarrow> TodoManager \<Rightarrow> TodoItem option" where
  "get_todo todo_id m =
     (case first_with_id todo_id (todos m) of None \<Rightarrow> None | Some i \<Rightarrow> Some (todos m ! i))"

text \<open>
  \<open>list.sort(key=..., reverse=True)\<close>: every key is computed first, in list order, and an
  exception of the key function leaves the list as it was; the sort is stable, also in
  reverse (the list is reversed, sorted upwards and reversed again).
\<close>

fun keys_of :: "('a \<Rightarrow> error + 'k) \<Rightarrow> 'a list \<Rightarrow> error + 'k list" where
  "keys_of key [] = Inr []"
| "keys_of key (x # xs) =
     (case key x of
        Inl e \<Rightarrow> Inl e
      | Inr k \<Rightarrow> (case keys_of key xs of Inl e \<Rightarrow> Inl e | Inr ks \<Rightarrow> Inr (k # ks)))"

definition sort_reverse :: "('a \<Rightarrow> error + 'k::linorder) \<Rightarrow> 'a list \<Rightarrow> error + 'a list" where
  "sort_reverse key xs =
     (case keys_of key xs of
        Inl e \<Rightarrow> Inl e
      | Inr ks \<Rightarrow> Inr (map snd (rev (sort_key fst (rev (zip ks xs))))))"

definition priority_order :: "string \<Rightarrow> nat option" where
  "priority_order p =
     (if p = ''High'' then Some 3 else if p = ''Medium'' then Some 2
      else if p = ''Low'' then Some 1 else None)"

definition created_key :: "(string \<Rightarrow> error + datetime) \<Rightarrow> TodoItem \<Rightarrow> error + datetime" where
  "created_key fromiso x = fromiso (created_at x)"

definition priority_key ::
  "(string \<Rightarrow> error + datetime) \<Rightarrow> TodoItem \<Rightarrow> error + (nat \<times> datetime)" where
  "priority_key fromiso x =
     (case priority_order (priority x) of
        None \<Rightarrow> Inl KeyError
      | Some p \<Rightarrow> (case fromiso (created_at x) of Inl e \<Rightarrow> Inl e | Inr d \<Rightarrow> Inr (p, d)))"

text \<open>
  \<open>list_todos\<close>. With \<open>show_completed\<close> the local name \<open>todos\<close> is the manager's own list,
  which \<open>sort\<close> then reorders; without it the comprehension builds a new list.
\<close>

definition list_todos ::
  "(string \<Rightarrow> error + datetime) \<Rightarrow> bool \<Rightarrow> bool \<Rightarrow> TodoManager
     \<Rightarrow> (error + TodoItem list) \<times> TodoManager" where
  "list_todos fromiso show_completed sort_by_priority m =
     (let ts = (if show_completed then todos m else filter (\<lambda>todo. \<not> completed todo) (todos m))
      in case (if sort_by_priority then sort_reverse (priority_key fromiso) ts
               else sort_reverse (created_key fromiso) ts) of
           Inl e \<Rightarrow> (Inl e, m)
         | Inr sorted_ts \<Rightarrow>
             (Inr sorted_ts, if show_completed then m\<lparr>todos := sorted_ts\<rparr> else m))"

subsection \<open>Sessions of the manager\<close>

text \<open>
  A session is the construction of the manager on some storage file followed by calls of
  its methods. Each call has its own clock readings. \<open>exec\<close> gives the state in which a call
  leaves the manager, also when the call raises.
\<close>

datatype op =
    Add string string string string string string
  | Remove int
  | Toggle int
  | Update int "string option" "string option" "string option" "string option"
      "string option" "string option"
  | ListTodos bool bool
  | Load

fun exec ::
  "(string \<Rightarrow> error + datetime) \<Rightarrow> (datetime \<Rightarrow> string) \<Rightarrow> (nat \<Rightarrow> string) \<Rightarrow> op
     \<Rightarrow> TodoManager \<Rightarrow> TodoManager" where
  "exec fromiso strf clk (Add ttl descr prio cat due rec) m =
     snd (add_todo clk ttl descr prio cat due rec m)"
| "exec fromiso strf clk (Remove i) m = snd (remove_todo i m)"
| "exec fromiso strf clk (Toggle i) m = snd (toggle_completion fromiso strf clk i m)"
| "exec fromiso strf clk (Update i ttl descr prio cat due rec) m =
     snd (update_todo clk i ttl descr prio cat due rec m)"
| "exec fromiso strf clk (ListTodos show_completed sort_by_priority) m =
     snd (list_todos fromiso show_completed sort_by_priority m)"
| "exec fromiso strf clk Load m = (case load_todos clk m of Inl e \<Rightarrow> m | Inr m' \<Rightarrow> m')"

fun run ::
  "(string \<Rightarrow> error + datetime) \<Rightarrow> (datetime \<Rightarrow> string) \<Rightarrow> (nat \<Rightarrow> nat \<Rightarrow> string) \<Rightarrow> op list
     \<Rightarrow> TodoManager \<Rightarrow> TodoManager" where
  "run fromiso strf clks [] m = m"
| "run fromiso strf clks (c # cs) m =
     run fromiso strf (\<lambda>k. clks (Suc k)) cs (exec fromiso strf (clks 0) c m)"

text \<open>The ids that the \<open>add_todo\<close> calls of a session return, in the order of the calls.\<close>

fun added_ids ::
  "(string \<Rightarrow> error + datetime) \<Rightarrow> (datetime \<Rightarrow> string) \<Rightarrow> (nat \<Rightarrow> nat \<Rightarrow> string) \<Rightarrow> op list
     \<Rightarrow> TodoManager \<Rightarrow> int list" where
  "added_ids fromiso strf clks [] m = []"
| "added_ids fromiso strf clks (c # cs) m =
     (case c of
        Add ttl descr prio cat due rec \<Rightarrow>
          (case fst (add_todo (clks 0) ttl descr prio cat due rec m) of
             None \<Rightarrow> []
           | Some t \<Rightarrow> [item_id t])
      | _ \<Rightarrow> [])
     @ added_ids fromiso strf (\<lambda>k. clks (Suc k)) cs (exec fromiso strf (clks 0) c m)"

text \<open>What the constructor and the validated assignments maintain for every item.\<close>

definition constructed :: "TodoItem \<Rightarrow> bool" where
  "constructed t = (validate_priority (priority t) \<and> created_at t \<noteq> [])"

section \<open>The in-memory command-line variant\<close>

record Task =
  tk_id :: int
  tk_title :: string
  tk_description :: string
  tk_status :: string
  tk_created_at :: datetime

record TodoCore =
  tasks :: "Task list"
  core_next_id :: int

definition TodoCore_init :: TodoCore where
  "TodoCore_init = \<lparr> tasks = [], core_next_id = 1 \<rparr>"

text \<open>\<open>str.isspace\<close> on the code points below 256, and \<open>str.strip()\<close>.\<close>

definition is_space :: "char \<Rightarrow> bool" where
  "is_space c =
     (c \<in> set [CHR 0x09, CHR 0x0A, CHR 0x0B, CHR 0x0C, CHR 0x0D, CHR 0x1C, CHR 0x1D,
                CHR 0x1E, CHR 0x1F, CHR 0x20, CHR 0x85, CHR 0xA0])"

definition strip :: "string \<Rightarrow> string" where
  "strip s = rev (dropWhile is_space (rev (dropWhile is_space s)))"

definition add_task :: "datetime \<Rightarrow> string \<Rightarrow> string \<Rightarrow> TodoCore \<Rightarrow> (error + Task) \<times> TodoCore" where
  "add_task now ttl descr core =
     (if strip ttl = [] then (Inl ValueError, core)
      else
        let task = \<lparr> tk_id = core_next_id core, tk_title = strip ttl,
                     tk_description = strip descr, tk_status = ''pending'',
                     tk_created_at = now \<rparr>
        in (Inr task, core\<lparr>tasks := tasks core @ [task], core_next_id := core_next_id core + 1\<rparr>))"

fun first_task_with_id :: "int \<Rightarrow> Task list \<Rightarrow> nat option" where
  "first_task_with_id i [] = None"
| "first_task_with_id i (t # ts) =
     (if tk_id t = i then Some 0
      else (case first_task_with_id i ts of None \<Rightarrow> None | Some k \<Rightarrow> Some (Suc k)))"

definition update_task_core ::
  "int \<Rightarrow> string option \<Rightarrow> string option \<Rightarrow> TodoCore \<Rightarrow> Task option \<times> TodoCore" where
  "update_task_core i ttl descr core =
     (case first_task_with_id i (tasks core) of
        None \<Rightarrow> (None, core)
      | Some k \<Rightarrow>
          let t0 = tasks core ! k;
              t1 = (case ttl of None \<Rightarrow> t0
                    | Some v \<Rightarrow> t0\<lparr>tk_title := (if strip v \<noteq> [] then strip v else tk_title t0)\<rparr>);
              t2 = (case descr of None \<Rightarrow> t1 | Some v \<Rightarrow> t1\<lparr>tk_description := strip v\<rparr>)
          in (Some t2, core\<lparr>tasks := (tasks core)[k := t2]\<rparr>))"

definition delete_task_core :: "int \<Rightarrow> TodoCore \<Rightarrow> bool \<times> TodoCore" where
  "delete_task_core i core =
     (case first_task_with_id i (tasks core) of
        None \<Rightarrow> (False, core)
      | Some k \<Rightarrow> (True, core\<lparr>tasks := take k (tasks core) @ drop (Suc k) (tasks core)\<rparr>))"

definition mark_task_completed :: "int \<Rightarrow> TodoCore \<Rightarrow> bool \<times> TodoCore" where
  "mark_task_completed i core =
     (case first_task_with_id i (tasks core) of
        None \<Rightarrow> (False, core)
      | Some k \<Rightarrow>
          (True, core\<lparr>tasks := (tasks core)[k := (tasks core ! k)\<lparr>tk_status := ''completed''\<rparr>]\<rparr>))"

datatype core_op =
    AddTask datetime string string
  | UpdateTask int "string option" "string option"
  | DeleteTask int
  | MarkCompleted int

fun core_exec :: "core_op \<Rightarrow> TodoCore \<Rightarrow> TodoCore" where
  "core_exec (AddTask now ttl descr) core = snd (add_task now ttl descr core)"
| "core_exec (UpdateTask i ttl descr) core = snd (update_task_core i ttl descr core)"
| "core_exec (DeleteTask i) core = snd (delete_task_core i core)"
| "core_exec (MarkCompleted i) core = snd (mark_task_completed i core)"

fun core_added_ids :: "core_op list \<Rightarrow> TodoCore \<Rightarrow> int list" where
  "core_added_ids [] core = []"
| "core_added_ids (c # cs) core =
     (case c of
        AddTask now ttl descr \<Rightarrow>
          (case fst (add_task now ttl descr core) of Inl e \<Rightarrow> [] | Inr t \<Rightarrow> [tk_id t])
      | _ \<Rightarrow> [])
     @ core_added_ids cs (core_exec c core)"

section \<open>The web backend\<close>

text \<open>
  The table of tasks behind the ORM session, with the primary key the database assigns
  next. A commit of a changed object rewrites the row of its primary key; a commit of a
  deleted object removes it.
\<close>

record DbTask =
  db_id :: int
  db_title :: string
  db_description :: "string option"
  db_user_id :: int
  db_completed :: bool
  db_created_at :: datetime
  db_updated_at :: datetime

record Session =
  table :: "DbTask list"
  next_pk :: int

record User =
  uid :: "int option"
  email :: string
  is_active :: bool

record TaskCreate =
  tc_title :: string
  tc_description :: "string option"
  tc_user_id :: "int option"

text \<open>\<open>TaskUpdate\<close> after \<open>model_dump(exclude_unset=True)\<close>: \<open>None\<close> is a field that was not sent.\<close>

record TaskUpdate =
  tu_title :: "string option"
  tu_description :: "string option option"
  tu_completed :: "bool option"

datatype web_error = HTTPException nat string | ValidationError

datatype response = TaskBody DbTask | TaskList "DbTask list" | Message string

subsection \<open>services.py\<close>

definition create_task ::
  "datetime \<Rightarrow> datetime \<Rightarrow> Session \<Rightarrow> TaskCreate \<Rightarrow> (web_error + DbTask) \<times> Session" where
  "create_task now1 now2 session task_create =
     (case tc_user_id task_create of
        None \<Rightarrow> (Inl ValidationError, session)
      | Some u \<Rightarrow>
          let db_task = \<lparr> db_id = next_pk session, db_title = tc_title task_create,
                          db_description = tc_description task_create, db_user_id = u,
                          db_completed = False, db_created_at = now1, db_updated_at = now2 \<rparr>
          in (Inr db_task,
              session\<lparr>table := table session @ [db_task], next_pk := next_pk session + 1\<rparr>))"

definition get_task_by_id :: "Session \<Rightarrow> int \<Rightarrow> int \<Rightarrow> DbTask option" where
  "get_task_by_id session task_id user_id =
     find (\<lambda>r. db_id r = task_id \<and> db_user_id r = user_id) (table session)"

text \<open>
  \<open>ORDER BY created_at DESC\<close>; between rows of equal \<open>created_at\<close> the database is free,
  the model keeps their table order.
\<close>

definition get_tasks_by_user :: "Session \<Rightarrow> int \<Rightarrow> bool option \<Rightarrow> DbTask list" where
  "get_tasks_by_user session user_id completed_opt =
     (let of_user = filter (\<lambda>r. db_user_id r = user_id) (table session);
          wanted = (case completed_opt of
                      None \<Rightarrow> of_user
                    | Some c \<Rightarrow> filter (\<lambda>r. db_completed r = c) of_user)
      in rev (sort_key db_created_at (rev wanted)))"

definition commit_row :: "DbTask \<Rightarrow> Session \<Rightarrow> Session" where
  "commit_row r session =
     session\<lparr>table := map (\<lambda>x. if db_id x = db_id r then r else x) (table session)\<rparr>"

definition commit_delete :: "DbTask \<Rightarrow> Session \<Rightarrow> Session" where
  "commit_delete r session =
     session\<lparr>table := filter (\<lambda>x. db_id x \<noteq> db_id r) (table session)\<rparr>"

definition update_task ::
  "datetime \<Rightarrow> Session \<Rightarrow> int \<Rightarrow> int \<Rightarrow> TaskUpdate \<Rightarrow> DbTask option \<times> Session" where
  "update_task now session task_id user_id task_update =
     (case get_task_by_id session task_id user_id of
        None \<Rightarrow> (None, session)
      | Some db_task \<Rightarrow>
          let t1 = (case tu_title task_update of
                      None \<Rightarrow> db_task | Some v \<Rightarrow> db_task\<lparr>db_title := v\<rparr>);
              t2 = (case tu_description task_update of
                      None \<Rightarrow> t1 | Some v \<Rightarrow> t1\<lparr>db_description := v\<rparr>);
              t3 = (case tu_completed task_update of
                      None \<Rightarrow> t2 | Some v \<Rightarrow> t2\<lparr>db_completed := v\<rparr>);
              t4 = t3\<lparr>db_updated_at := now\<rparr>
          in (Some t4, commit_row t4 session))"

definition delete_task :: "Session \<Rightarrow> int \<Rightarrow> int \<Rightarrow> bool \<times> Session" where
  "delete_task session task_id user_id =
     (case get_task_by_id session task_id user_id of
        None \<Rightarrow> (False, session)
      | Some db_task \<Rightarrow> (True, commit_delete db_task session))"

definition toggle_task_completion ::
  "datetime \<Rightarrow> Session \<Rightarrow> int \<Rightarrow> int \<Rightarrow> bool \<Rightarrow> DbTask option \<times> Session" where
  "toggle_task_completion now session task_id user_id compl =
     (case get_task_by_id session task_id user_id of
        None \<Rightarrow> (None, session)
      | Some db_task \<Rightarrow>
          let t1 = db_task\<lparr>db_completed := compl, db_updated_at := now\<rparr>
          in (Some t1, commit_row t1 session))"

subsection \<open>api/routes/tasks.py\<close>

definition create_new_task ::
  "datetime \<Rightarrow> datetime \<Rightarrow> int \<Rightarrow> TaskCreate \<Rightarrow> User \<Rightarrow> Session
     \<Rightarrow> (web_error + response) \<times> Session" where
  "create_new_task now1 now2 user_id task current_user session =
     (if uid current_user \<noteq> Some user_id then
        (Inl (HTTPException 403 ''Not authorized to create tasks for this user''), session)
      else
        (case create_task now1 now2 session (task\<lparr>tc_user_id := Some user_id\<rparr>) of
           (Inl e, s) \<Rightarrow> (Inl e, s)
         | (Inr t, s) \<Rightarrow> (Inr (TaskBody t), s)))"

definition read_tasks ::
  "int \<Rightarrow> bool option \<Rightarrow> User \<Rightarrow> Session \<Rightarrow> (web_error + response) \<times> Session" where
  "read_tasks user_id completed_opt current_user session =
     (if uid current_user \<noteq> Some user_id then
        (Inl (HTTPException 403 ''Not authorized to access tasks for this user''), session)
      else (Inr (TaskList (get_tasks_by_user session user_id completed_opt)), session))"

definition read_task ::
  "int \<Rightarrow> int \<Rightarrow> User \<Rightarrow> Session \<Rightarrow> (web_error + response) \<times> Session" where
  "read_task user_id task_id current_user session =
     (if uid current_user \<noteq> Some user_id then
        (Inl (HTTPException 403 ''Not authorized to access tasks for this user''), session)
      else
        (case get_task_by_id session task_id user_id of
           None \<Rightarrow> (Inl (HTTPException 404 ''Task not found''), session)
         | Some task \<Rightarrow> (Inr (TaskBody task), session)))"

definition update_existing_task ::
  "datetime \<Rightarrow> int \<Rightarrow> int \<Rightarrow> TaskUpdate \<Rightarrow> User \<Rightarrow> Session
     \<Rightarrow> (web_error + response) \<times> Session" where
  "update_existing_task now user_id task_id task_update current_user session =
     (if uid current_user \<noteq> Some user_id then
        (Inl (HTTPException 403 ''Not authorized to update tasks for this user''), session)
      else
        (case update_task now session task_id user_id task_update of
           (None, s) \<Rightarrow> (Inl (HTTPException 404 ''Task not found''), s)
         | (Some updated_task, s) \<Rightarrow> (Inr (TaskBody updated_task), s)))"

definition delete_existing_task ::
  "int \<Rightarrow> int \<Rightarrow> User \<Rightarrow> Session \<Rightarrow> (web_error + response) \<times> Session" where
  "delete_existing_task user_id task_id current_user session =
     (if uid current_user \<noteq> Some user_id then
        (Inl (HTTPException 403 ''Not authorized to delete tasks for this user''), session)
      else
        (case delete_task session task_id user_id of
           (False, s) \<Rightarrow> (Inl (HTTPException 404 ''Task not found''), s)
         | (True, s) \<Rightarrow> (Inr (Message ''Task deleted successfully''), s)))"

definition toggle_task_complete ::
  "datetime \<Rightarrow> int \<Rightarrow> int \<Rightarrow> bool \<Rightarrow> User \<Rightarrow> Session \<Rightarrow> (web_error + response) \<times> Session" where
  "toggle_task_complete now user_id task_id compl current_user session =
     (if uid current_user \<noteq> Some user_id then
        (Inl (HTTPException 403 ''Not authorized to update tasks for this user''), session)
      else
        (case toggle_task_completion now session task_id user_id compl of
           (None, s) \<Rightarrow> (Inl (HTTPException 404 ''Task not found''), s)
         | (Some task, s) \<Rightarrow> (Inr (TaskBody task), s)))"

text \<open>The six task routes of the router, each with the arguments of its handler.\<close>

datatype request =
    CreateNewTask datetime datetime int TaskCreate
  | ReadTasks int "bool option"
  | ReadTask int int
  | UpdateExistingTask datetime int int TaskUpdate
  | DeleteExistingTask int int
  | ToggleTaskComplete datetime int int bool

fun path_user_id :: "request \<Rightarrow> int" where
  "path_user_id (CreateNewTask now1 now2 user_id task) = user_id"
| "path_user_id (ReadTasks user_id c) = user_id"
| "path_user_id (ReadTask user_id task_id) = user_id"
| "path_user_id (UpdateExistingTask now user_id task_id u) = user_id"
| "path_user_id (DeleteExistingTask user_id task_id) = user_id"
| "path_user_id (ToggleTaskComplete now user_id task_id c) = user_id"

fun path_task_id :: "request \<Rightarrow> int option" where
  "path_task_id (CreateNewTask now1 now2 user_id task) = None"
| "path_task_id (ReadTasks user_id c) = None"
| "path_task_id (ReadTask user_id task_id) = Some task_id"
| "path_task_id (UpdateExistingTask now user_id task_id u) = Some task_id"
| "path_task_id (DeleteExistingTask user_id task_id) = Some task_id"
| "path_task_id (ToggleTaskComplete now user_id task_id c) = Some task_id"

fun route :: "request \<Rightarrow> User \<Rightarrow> Session \<Rightarrow> (web_error + response) \<times> Session" where
  "route (CreateNewTask now1 now2 user_id task) cu s = create_new_task now1 now2 user_id task cu s"
| "route (ReadTasks user_id c) cu s = read_tasks user_id c cu s"
| "route (ReadTask user_id task_id) cu s = read_task user_id task_id cu s"
| "route (UpdateExistingTask now user_id task_id u) cu s =
     update_existing_task now user_id task_id u cu s"
| "route (DeleteExistingTask user_id task_id) cu s = delete_existing_task user_id task_id cu s"
| "route (ToggleTaskComplete now user_id task_id c) cu s =
     toggle_task_complete now user_id task_id c cu s"

definition forbidden_detail :: "request \<Rightarrow> string" where
  "forbidden_detail req =
     (case req of
        CreateNewTask now1 now2 user_id task \<Rightarrow> ''Not authorized to create tasks for this user''
      | ReadTasks user_id c \<Rightarrow> ''Not authorized to access tasks for this user''
      | ReadTask user_id task_id \<Rightarrow> ''Not authorized to access tasks for this user''
      | UpdateExistingTask now user_id task_id u \<Rightarrow> ''Not authorized to update tasks for this user''
      | DeleteExistingTask user_id task_id \<Rightarrow> ''Not authorized to delete tasks for this user''
      | ToggleTaskComplete now user_id task_id c \<Rightarrow> ''Not authorized to update tasks for this user'')"

section \<open>Example states\<close>

text \<open>Concrete clocks, items and managers on which the properties below are evaluated.\<close>

definition clock0 :: "nat \<Rightarrow> string" where
  "clock0 n = ''2024-05-01T09:00:00''"

definition clocks0 :: "nat \<Rightarrow> nat \<Rightarrow> string" where
  "clocks0 k n = ''2024-05-01T09:00:00''"

definition item_plain :: TodoItem where
  "item_plain =
     \<lparr> item_id = 1, title = ''Pay rent'', description = ''flat'', completed = False,
       priority = ''High'', category = ''home'', due_date = [], recurring_pattern = [],
       created_at = ''2024-01-01T08:00:00'', updated_at = ''2024-01-01T08:00:00'' \<rparr>"

definition mgr :: "TodoItem list \<Rightarrow> int \<Rightarrow> TodoManager" where
  "mgr ts n = \<lparr> todos = ts, next_id = n, storage = Stored (dump ts), stdout = [] \<rparr>"

definition mgr_fresh :: TodoManager where
  "mgr_fresh = \<lparr> todos = [], next_id = 1, storage = NoFile, stdout = [] \<rparr>"

definition item_daily :: TodoItem where
  "item_daily =
     \<lparr> item_id = 2, title = ''Water plants'', description = ''balcony'', completed = False,
       priority = ''Medium'', category = ''home'', due_date = ''2024-01-01'',
       recurring_pattern = ''Daily'',
       created_at = ''2024-01-02T08:00:00'', updated_at = ''2024-01-02T08:00:00'' \<rparr>"

definition item_feb30 :: TodoItem where
  "item_feb30 =
     \<lparr> item_id = 1, title = ''Water plants'', description = [], completed = False,
       priority = ''Medium'', category = [], due_date = ''2024-02-30'',
       recurring_pattern = ''Daily'',
       created_at = ''2024-05-01T09:00:00'', updated_at = ''2024-05-01T09:00:00'' \<rparr>"

definition mgr_emptied :: TodoManager where
  "mgr_emptied =
     snd (remove_todo 1
       (snd (add_todo clock0 ''first'' [] ''Medium'' [] [] [] mgr_fresh)))"

definition core_emptied :: TodoCore where
  "core_emptied = snd (delete_task_core 1 (snd (add_task (738886, 0) ''first'' [] TodoCore_init)))"

text \<open>Every id of the list lies below the counter \<open>next_id\<close>.\<close>

definition ids_below_next :: "TodoManager \<Rightarrow> bool" where
  "ids_below_next m = list_all (\<lambda>t. item_id t < next_id m) (todos m)"

definition session0 :: "op list" where
  "session0 =
     [Add ''first'' [] ''Medium'' [] [] [], Remove 1, Add ''second'' [] ''Low'' [] [] []]"

definition core_session0 :: "core_op list" where
  "core_session0 = [AddTask (738886, 0) ''first'' [], DeleteTask 1, AddTask (738887, 0) ''second'' []]"

definition alice :: User where
  "alice = \<lparr> uid = Some 1, email = ''alice@example.org'', is_active = True \<rparr>"

definition row7 :: DbTask where
  "row7 = \<lparr> db_id = 7, db_title = ''Write report'', db_description = None, db_user_id = 2,
            db_completed = False, db_created_at = (738886, 0), db_updated_at = (738886, 0) \<rparr>"

definition db0 :: Session where
  "db0 = \<lparr> table = [row7], next_pk = 8 \<rparr>"

definition db_empty :: Session where
  "db_empty = \<lparr> table = [], next_pk = 1 \<rparr>"


definition dict_minimal :: item_dict where
  "dict_minimal =
     \<lparr> dict_id = Some 4, dict_title = Some ''Call home'', dict_description = None,
       dict_completed = None, dict_priority = None, dict_category = None,
       dict_due_date = None, dict_recurring_pattern = None, dict_created_at = None,
       dict_updated_at = None \<rparr>"

text \<open>
  The invariant of an item: a priority of the three, and (when \<open>with_created\<close> is set) a
  non-empty \<open>created_at\<close>. The second half needs clock readings that are non-empty, as
  \<open>isoformat()\<close> returns them.
\<close>

definition item_ok :: "bool \<Rightarrow> TodoItem \<Rightarrow> bool" where
  "item_ok with_created t =
     (validate_priority (priority t) \<and> (\<not> with_created \<or> created_at t \<noteq> []))"

definition clock_ok :: "bool \<Rightarrow> (nat \<Rightarrow> string) \<Rightarrow> bool" where
  "clock_ok with_created clk = (\<not> with_created \<or> (\<forall>n. clk n \<noteq> []))"

definition session_urgent_ops :: "op list" where
  "session_urgent_ops =
     [Update 4 None None (Some ''Low'') None None (Some ''Daily''),
      Update 4 None None (Some ''Urgent'') None None None,
      Toggle 4]"

section \<open>Properties\<close>

subsection \<open>Searching by id\<close>

lemma first_with_id_Some:
  "first_with_id i ts = Some k \<Longrightarrow> k < length ts \<and> item_id (ts ! k) = i"
  by (induction ts arbitrary: k) (auto split: if_splits option.splits)

lemma first_with_id_None: "(first_with_id i ts = None) = (i \<notin> item_id ` set ts)"
  by (induction ts) (auto split: option.splits)

subsection \<open>Toggling without regeneration\<close>

text \<open>
  Claim C2. A call of \<open>toggle_completion\<close> on an existing item whose recurring pattern is
  empty, or which is complete before the call, returns \<open>True\<close>, replaces the item by itself
  with \<open>completed\<close> negated and \<open>updated_at\<close> refreshed, saves, and neither adds nor removes
  an item: the list keeps its length and \<open>next_id\<close> its value. Conversely, the length of
  the list changes only when the item found was incomplete and has a non-empty pattern.
\<close>

theorem toggle_without_regeneration:
  "(first_with_id todo_id (todos m) = Some i
      \<and> (recurring_pattern (todos m ! i) = [] \<or> completed (todos m ! i))
    \<longrightarrow> toggle_completion fromiso strf clk todo_id m
          = (Inr True,
             save_todos (m\<lparr>todos := (todos m)[i := (todos m ! i)
                  \<lparr>completed := \<not> completed (todos m ! i), updated_at := clk 0\<rparr>]\<rparr>))
        \<and> length (todos (snd (toggle_completion fromiso strf clk todo_id m))) = length (todos m)
        \<and> next_id (snd (toggle_completion fromiso strf clk todo_id m)) = next_id m)
   \<and> (length (todos (snd (toggle_completion fromiso strf clk todo_id m))) \<noteq> length (todos m)
    \<longrightarrow> (\<exists>k. first_with_id todo_id (todos m) = Some k \<and> \<not> completed (todos m ! k)
             \<and> recurring_pattern (todos m ! k) \<noteq> []))"
  by (auto simp: toggle_completion_def Let_def save_todos_def create_recurring_task_def
       split: option.splits sum.splits if_splits)

theorem toggle_without_regeneration_witness:
  "first_with_id 1 (todos (mgr [item_plain] 2)) = Some 0
   \<and> recurring_pattern (todos (mgr [item_plain] 2) ! 0) = []
   \<and> toggle_completion fromisoformat strftime_ymd clock0 1 (mgr [item_plain] 2)
       = (Inr True, mgr [item_plain\<lparr>completed := True, updated_at := ''2024-05-01T09:00:00''\<rparr>] 2)"
  using toggle_without_regeneration [of 1 "mgr [item_plain] 2" 0 fromisoformat strftime_ymd clock0]
  by (simp add: mgr_def item_plain_def clock0_def save_todos_def)

subsection \<open>Regeneration of recurring tasks\<close>

lemma next_due_empty: "next_due fromiso strf [] k = Inr []"
  by (simp add: next_due_def)

lemma next_due_Inr:
  "next_due fromiso strf due k = Inr nd \<Longrightarrow> due \<noteq> [] \<Longrightarrow>
     \<exists>dt. fromiso due = Inr dt \<and> 1 \<le> fst dt + k \<and> fst dt + k \<le> MAXORDINAL
          \<and> nd = strf (fst dt + k, snd dt)"
  by (auto simp: next_due_def add_days_def Let_def split: sum.splits if_splits)

lemma next_due_example: "next_due fromisoformat strftime_ymd ''2024-01-01'' 1 = Inr ''2024-01-02''"
  by code_simp

text \<open>
  Where \<open>next_due\<close> returns, the regeneration is the one described: \<open>toggle_completion\<close> on an
  incomplete item whose pattern is Daily, Weekly or Monthly returns \<open>True\<close>, marks the item
  complete and appends exactly one item. It has the id \<open>next_id\<close>, which no item of the
  list has, the title, description, priority, category and pattern of the original,
  \<open>completed = False\<close>, and as due date the empty string when the original's is empty, else
  the day 1, 7 or 30 ordinals after the original's.
\<close>

lemma toggle_regenerates:
  assumes found: "first_with_id todo_id (todos m) = Some i"
      and incomplete: "\<not> completed (todos m ! i)"
      and pattern: "(recurring_pattern (todos m ! i), k)
                      \<in> set [(''Daily'', 1), (''Weekly'', 7), (''Monthly'', 30)]"
      and prio: "validate_priority (priority (todos m ! i))"
      and due: "next_due fromiso strf (due_date (todos m ! i)) k = Inr nd"
      and ids: "\<forall>t \<in> set (todos m). item_id t < next_id m"
  shows "toggle_completion fromiso strf clk todo_id m
           = (Inr True,
              save_todos (m\<lparr>todos := (todos m)[i := (todos m ! i)\<lparr>completed := True, updated_at := clk 0\<rparr>]
                    @ [\<lparr> item_id = next_id m, title = title (todos m ! i),
                         description = description (todos m ! i), completed = False,
                         priority = priority (todos m ! i), category = category (todos m ! i),
                         due_date = nd, recurring_pattern = recurring_pattern (todos m ! i),
                         created_at = clk 1, updated_at = clk 2 \<rparr>],
                  next_id := next_id m + 1\<rparr>))
         \<and> next_id m \<notin> item_id ` set (todos m)
         \<and> (if due_date (todos m ! i) = [] then nd = []
            else \<exists>dt. fromiso (due_date (todos m ! i)) = Inr dt \<and> nd = strf (fst dt + k, snd dt))"
proof -
  let ?old = "todos m ! i"
  have nd: "if due_date ?old = [] then nd = []
            else \<exists>dt. fromiso (due_date ?old) = Inr dt \<and> nd = strf (fst dt + k, snd dt)"
    using due next_due_Inr [of fromiso strf "due_date ?old" k nd]
    by (auto simp: next_due_empty)
  have fresh: "next_id m \<notin> item_id ` set (todos m)"
    using ids by auto
  have run: "toggle_completion fromiso strf clk todo_id m
           = (Inr True,
              save_todos (m\<lparr>todos := (todos m)[i := ?old\<lparr>completed := True, updated_at := clk 0\<rparr>]
                    @ [\<lparr> item_id = next_id m, title = title ?old,
                         description = description ?old, completed = False,
                         priority = priority ?old, category = category ?old,
                         due_date = nd, recurring_pattern = recurring_pattern ?old,
                         created_at = clk 1, updated_at = clk 2 \<rparr>],
                  next_id := next_id m + 1\<rparr>))"
    using found incomplete pattern prio due
    by (auto simp: toggle_completion_def create_recurring_task_def TodoItem_init_def Let_def
          save_todos_def validate_priority_def)
  from run fresh nd show ?thesis by blast
qed

text \<open>The example of the specification: Daily and 2024-01-01 give one new item due 2024-01-02.\<close>

lemma toggle_regenerates_example:
  "first_with_id 2 (todos (mgr [item_daily] 3)) = Some 0
   \<and> \<not> completed (todos (mgr [item_daily] 3) ! 0)
   \<and> toggle_completion fromisoformat strftime_ymd clock0 2 (mgr [item_daily] 3)
       = (Inr True,
          mgr [item_daily\<lparr>completed := True, updated_at := ''2024-05-01T09:00:00''\<rparr>,
               item_daily\<lparr>item_id := 3, due_date := ''2024-01-02'',
                 created_at := ''2024-05-01T09:00:00'', updated_at := ''2024-05-01T09:00:00''\<rparr>] 4)"
  using toggle_regenerates [of 2 "mgr [item_daily] 3" 0 1 fromisoformat strftime_ymd
      "''2024-01-02''" clock0]
    next_due_example
  by (simp add: mgr_def item_daily_def clock0_def save_todos_def validate_priority_def to_dict_def)

text \<open>
  A pattern that is none of the three is not regenerated. \<open>add_todo\<close> and \<open>update_todo\<close>
  refuse such a pattern; only a file written by other means holds one.
\<close>

lemma toggle_other_pattern:
  assumes "first_with_id todo_id (todos m) = Some i"
      and "recurring_pattern (todos m ! i) \<notin> set [''Daily'', ''Weekly'', ''Monthly'']"
  shows "toggle_completion fromiso strf clk todo_id m
           = (Inr True,
              save_todos (m\<lparr>todos := (todos m)[i := (todos m ! i)
                   \<lparr>completed := \<not> completed (todos m ! i), updated_at := clk 0\<rparr>]\<rparr>))"
  using assms by (simp add: toggle_completion_def create_recurring_task_def Let_def)

lemma init_fresh: "TodoManager_init clock0 NoFile = Inr mgr_fresh"
  by (simp add: TodoManager_init_def load_todos_def update_next_id_def mgr_fresh_def)

text \<open>
  Claim C1: completing an incomplete item with a recurring pattern is to append exactly one
  successor, due 1, 7 or 30 days later. \<open>_validate_date_format\<close> checks the shape of a due
  date only, so \<open>add_todo\<close> on a fresh manager accepts 2024-02-30 and 9999-12-31 with the
  pattern Daily. Completing either item raises out of \<open>toggle_completion\<close>, \<open>ValueError\<close> from
  \<open>fromisoformat\<close> for the first and \<open>OverflowError\<close> from the addition for the second: the
  item is complete in memory, no successor is appended, \<open>next_id\<close> stays, and the file still
  holds the item as incomplete.
\<close>

theorem toggle_raises_on_accepted_date:
  "TodoManager_init clock0 NoFile = Inr mgr_fresh
   \<and> validate_date_format ''2024-02-30''
   \<and> add_todo clock0 ''Water plants'' [] ''Medium'' [] ''2024-02-30'' ''Daily'' mgr_fresh
       = (Some item_feb30, mgr [item_feb30] 2)
   \<and> \<not> completed item_feb30 \<and> recurring_pattern item_feb30 = ''Daily''
   \<and> toggle_completion fromisoformat strftime_ymd clock0 1 (mgr [item_feb30] 2)
       = (Inl ValueError,
          (mgr [item_feb30] 2)
            \<lparr>todos := [item_feb30\<lparr>completed := True, updated_at := ''2024-05-01T09:00:00''\<rparr>]\<rparr>)
   \<and> validate_date_format ''9999-12-31''
   \<and> add_todo clock0 ''Water plants'' [] ''Medium'' [] ''9999-12-31'' ''Daily'' mgr_fresh
       = (Some (item_feb30\<lparr>due_date := ''9999-12-31''\<rparr>),
          mgr [item_feb30\<lparr>due_date := ''9999-12-31''\<rparr>] 2)
   \<and> toggle_completion fromisoformat strftime_ymd clock0 1
         (mgr [item_feb30\<lparr>due_date := ''9999-12-31''\<rparr>] 2)
       = (Inl OverflowError,
          (mgr [item_feb30\<lparr>due_date := ''9999-12-31''\<rparr>] 2)
            \<lparr>todos := [item_feb30\<lparr>due_date := ''9999-12-31'', completed := True,
                                updated_at := ''2024-05-01T09:00:00''\<rparr>]\<rparr>)"
  by code_simp

subsection \<open>Rejected input\<close>

text \<open>
  \<open>add_todo\<close> validates every field before it builds the item: a rejected call prints one
  message, returns \<open>None\<close> and leaves the list, \<open>next_id\<close> and the file alone.
\<close>

lemma add_todo_rejected:
  "\<not> (validate_priority prio \<and> validate_date_format due \<and> validate_recurring_pattern rec) \<Longrightarrow>
     \<exists>msg. add_todo clk ttl descr prio cat due rec m = (None, m\<lparr>stdout := stdout m @ [msg]\<rparr>)"
  by (auto simp: add_todo_def py_print_def)

text \<open>
  Whatever its arguments, \<open>update_todo\<close> on an existing id replaces the item found by an
  item of the same id and creation time, leaves \<open>next_id\<close> alone, and writes the file only
  when it returns \<open>True\<close>.
\<close>

lemma update_todo_shape:
  assumes "first_with_id i (todos m) = Some k"
  shows "\<exists>t. item_id t = item_id (todos m ! k)
            \<and> (validate_priority (priority (todos m ! k)) \<longrightarrow> validate_priority (priority t))
            \<and> created_at t = created_at (todos m ! k)
            \<and> todos (snd (update_todo clk i ttl descr prio cat due rec m)) = (todos m)[k := t]
            \<and> next_id (snd (update_todo clk i ttl descr prio cat due rec m)) = next_id m
            \<and> (fst (update_todo clk i ttl descr prio cat due rec m)
                 \<or> storage (snd (update_todo clk i ttl descr prio cat due rec m)) = storage m)"
proof -
  let ?t0 = "todos m ! k"
  let ?t1 = "case ttl of None \<Rightarrow> ?t0 | Some v \<Rightarrow> ?t0\<lparr>title := v\<rparr>"
  let ?t2 = "case descr of None \<Rightarrow> ?t1 | Some v \<Rightarrow> ?t1\<lparr>description := v\<rparr>"
  let ?P = "\<lambda>t. item_id t = item_id ?t0
            \<and> (validate_priority (priority ?t0) \<longrightarrow> validate_priority (priority t))
            \<and> created_at t = created_at ?t0"
  have t2: "?P ?t2" by (simp split: option.splits)
  have sp: "\<And>t t'. ?P t \<Longrightarrow> set_priority prio t = Inr t' \<Longrightarrow> ?P t'"
    by (auto simp: set_priority_def split: option.splits if_splits)
  have sd: "\<And>t t'. ?P t \<Longrightarrow> set_due_date due t = Inr t' \<Longrightarrow> ?P t'"
    by (auto simp: set_due_date_def split: option.splits if_splits)
  have sr: "\<And>t t'. ?P t \<Longrightarrow> set_recurring_pattern rec t = Inr t' \<Longrightarrow> ?P t'"
    by (auto simp: set_recurring_pattern_def split: option.splits if_splits)
  have sc: "\<And>t. ?P t \<Longrightarrow> ?P (case cat of None \<Rightarrow> t | Some v \<Rightarrow> t\<lparr>category := v\<rparr>)"
    by (simp split: option.splits)
  show ?thesis
  proof (cases "set_priority prio ?t2")
    case (Inl msg)
    with assms t2 show ?thesis
      by (intro exI [of _ ?t2]) (simp add: update_todo_def Let_def py_print_def put_def)
  next
    case t3: (Inr t3)
    let ?t4 = "case cat of None \<Rightarrow> t3 | Some v \<Rightarrow> t3\<lparr>category := v\<rparr>"
    have t4: "?P ?t4" using sp [OF t2 t3] by (rule sc)
    show ?thesis
    proof (cases "set_due_date due ?t4")
      case (Inl msg)
      with assms t3 t4 show ?thesis
        by (intro exI [of _ ?t4]) (simp add: update_todo_def Let_def py_print_def put_def)
    next
      case t5: (Inr t5)
      have p5: "?P t5" using t4 t5 by (rule sd)
      show ?thesis
      proof (cases "set_recurring_pattern rec t5")
        case (Inl msg)
        with assms t3 t5 p5 show ?thesis
          by (intro exI [of _ t5]) (simp add: update_todo_def Let_def py_print_def put_def)
      next
        case t6: (Inr t6)
        have p6: "?P t6" using p5 t6 by (rule sr)
        with assms t3 t5 t6 show ?thesis
          by (intro exI [of _ "t6\<lparr>updated_at := clk 0\<rparr>"])
             (simp add: update_todo_def Let_def save_todos_def put_def)
      qed
    qed
  qed
qed


lemma update_todo_missing:
  "first_with_id i (todos m) = None \<Longrightarrow> update_todo clk i ttl descr prio cat due rec m = (False, m)"
  by (simp add: update_todo_def)

text \<open>A failing \<open>update_todo\<close> does not write the file and keeps the number of items.\<close>

lemma update_todo_failure_frame:
  assumes "update_todo clk todo_id ttl descr prio cat due rec m = (False, m')"
  shows "storage m' = storage m \<and> next_id m' = next_id m \<and> length (todos m') = length (todos m)"
proof (cases "first_with_id todo_id (todos m)")
  case None
  with assms show ?thesis by (simp add: update_todo_missing)
next
  case (Some k)
  from update_todo_shape [OF Some, of clk ttl descr prio cat due rec] assms
  show ?thesis by auto
qed

text \<open>
  Claim C3: a call with a field that fails validation is meant to leave every item as it
  was. \<open>update_todo\<close> assigns the fields that precede the rejected one before it returns
  \<open>False\<close>: here the title is replaced in memory although the due date is rejected, and the
  file keeps the old title.
\<close>

theorem update_todo_partial_mutation:
  "update_todo clock0 1 (Some ''Pay rent twice'') None None None (Some ''tomorrow'') None
       (mgr [item_plain] 2)
     = (False,
        (mgr [item_plain] 2)
          \<lparr>todos := [item_plain\<lparr>title := ''Pay rent twice''\<rparr>],
           stdout := [''Invalid date format: tomorrow. Expected format: YYYY-MM-DD'']\<rparr>)
   \<and> title (todos (snd (update_todo clock0 1 (Some ''Pay rent twice'') None None None
                          (Some ''tomorrow'') None (mgr [item_plain] 2))) ! 0)
       \<noteq> title (todos (mgr [item_plain] 2) ! 0)"
  by (simp add: update_todo_def mgr_def item_plain_def set_priority_def set_due_date_def
        validate_date_format_def date_shape_def py_print_def put_def Let_def)

subsection \<open>The largest id\<close>

lemma max_of_ge: "a \<le> max_of a xs \<and> (\<forall>x \<in> set xs. x \<le> max_of a xs)"
proof (induction xs arbitrary: a)
  case Nil
  then show ?case by simp
next
  case (Cons x xs)
  from Cons [of "if x > a then x else a"] show ?case by auto
qed

lemma max_of_mem: "max_of a xs \<in> set (a # xs)"
proof (induction xs arbitrary: a)
  case Nil
  then show ?case by simp
next
  case (Cons x xs)
  from Cons [of "if x > a then x else a"] show ?case by auto
qed

lemma max_of_Max: "max_of a xs = Max (set (a # xs))"
proof (rule sym, rule Max_eqI)
  show "finite (set (a # xs))" by simp
  show "\<And>y. y \<in> set (a # xs) \<Longrightarrow> y \<le> max_of a xs" using max_of_ge [of a xs] by auto
  show "max_of a xs \<in> set (a # xs)" by (rule max_of_mem)
qed

lemma update_next_id_todos: "todos (update_next_id m) = todos m"
  by (simp add: update_next_id_def split: list.splits)

lemma update_next_id_value:
  "next_id (update_next_id m)
     = (if todos m = [] then 1 else Max (item_id ` set (todos m)) + 1)"
  by (auto simp: update_next_id_def max_of_Max split: list.splits)

lemma update_next_id_bound: "t \<in> set (todos m) \<Longrightarrow> item_id t < next_id (update_next_id m)"
  using max_of_ge by (fastforce simp: update_next_id_def split: list.splits)


subsection \<open>Sorting\<close>

lemma keys_of_length: "keys_of key xs = Inr ks \<Longrightarrow> length ks = length xs"
  by (induction xs arbitrary: ks) (auto split: sum.splits)

lemma sort_reverse_mset: "sort_reverse key xs = Inr ys \<Longrightarrow> mset ys = mset xs"
proof -
  assume a: "sort_reverse key xs = Inr ys"
  then obtain ks where ks: "keys_of key xs = Inr ks"
    and ys: "ys = map snd (rev (sort_key fst (rev (zip ks xs))))"
    by (auto simp: sort_reverse_def split: sum.splits)
  have "mset ys = image_mset snd (mset (zip ks xs))"
    by (simp add: ys)
  also have "\<dots> = mset (map snd (zip ks xs))" by simp
  also have "\<dots> = mset xs" using keys_of_length [OF ks] by simp
  finally show ?thesis .
qed

lemma sort_reverse_set: "sort_reverse key xs = Inr ys \<Longrightarrow> set ys = set xs"
  by (metis sort_reverse_mset set_mset_mset)

subsection \<open>The id counter\<close>

lemma ids_below_next_iff: "ids_below_next m = (\<forall>t \<in> set (todos m). item_id t < next_id m)"
  by (simp add: ids_below_next_def list_all_iff)

lemma add_todo_success:
  "add_todo clk ttl descr prio cat due rec m = (Some t, m') \<Longrightarrow>
     item_id t = next_id m \<and> \<not> completed t \<and> todos m' = todos m @ [t]
     \<and> next_id m' = next_id m + 1"
  by (auto simp: add_todo_def TodoItem_init_def save_todos_def Let_def split: if_splits)

lemma add_todo_next_id:
  "next_id (snd (add_todo clk ttl descr prio cat due rec m))
     = (case fst (add_todo clk ttl descr prio cat due rec m) of
          None \<Rightarrow> next_id m | Some t \<Rightarrow> next_id m + 1)"
  by (auto simp: add_todo_def py_print_def save_todos_def Let_def)

lemma add_todo_None_todos:
  "fst (add_todo clk ttl descr prio cat due rec m) = None \<Longrightarrow>
     todos (snd (add_todo clk ttl descr prio cat due rec m)) = todos m"
  by (auto simp: add_todo_def py_print_def save_todos_def Let_def split: if_splits)

lemma add_todo_ids: "ids_below_next m \<Longrightarrow> ids_below_next (snd (add_todo clk ttl descr prio cat due rec m))"
  by (auto simp: ids_below_next_iff add_todo_def py_print_def save_todos_def Let_def TodoItem_init_def)

lemma remove_todo_next_id: "next_id (snd (remove_todo i m)) = next_id m"
  by (auto simp: remove_todo_def save_todos_def split: option.splits)

lemma remove_todo_ids: "ids_below_next m \<Longrightarrow> ids_below_next (snd (remove_todo i m))"
  by (auto simp: ids_below_next_iff remove_todo_def save_todos_def split: option.splits
        dest: in_set_takeD in_set_dropD)

lemma create_recurring_task_Inr:
  "create_recurring_task fromiso strf a b t m = Inr m' \<Longrightarrow>
     m' = m \<or> (\<exists>nd. m' = save_todos (m\<lparr>todos := todos m @
                     [TodoItem_init (next_id m) (title t) (description t) False None
                        (priority t) (category t) nd (recurring_pattern t) a b],
                   next_id := next_id m + 1\<rparr>))"
  by (auto simp: create_recurring_task_def Let_def split: option.splits sum.splits if_splits)

lemma create_recurring_task_ids:
  assumes "ids_below_next m" and "create_recurring_task fromiso strf a b t m = Inr m'"
  shows "ids_below_next m' \<and> next_id m \<le> next_id m'"
  using create_recurring_task_Inr [OF assms(2)] assms(1)
  by (fastforce simp: ids_below_next_iff save_todos_def TodoItem_init_def)

lemma toggle_completion_ids:
  assumes "ids_below_next m"
  shows "ids_below_next (snd (toggle_completion fromiso strf clk i m))
         \<and> next_id m \<le> next_id (snd (toggle_completion fromiso strf clk i m))"
proof (cases "first_with_id i (todos m)")
  case None
  with assms show ?thesis by (simp add: toggle_completion_def)
next
  case (Some k)
  let ?t = "(todos m ! k)\<lparr>completed := \<not> completed (todos m ! k), updated_at := clk 0\<rparr>"
  let ?m1 = "m\<lparr>todos := (todos m)[k := ?t]\<rparr>"
  from first_with_id_Some [OF Some] have k: "k < length (todos m)" by simp
  have m1: "ids_below_next ?m1"
    using assms k by (auto simp: ids_below_next_iff set_conv_nth nth_list_update)
  show ?thesis
  proof (cases "create_recurring_task fromiso strf (clk 1) (clk 2) ?t ?m1")
    case (Inl e)
    with Some m1 show ?thesis
      by (auto simp: toggle_completion_def Let_def save_todos_def ids_below_next_iff)
  next
    case (Inr m2)
    from create_recurring_task_ids [OF m1 Inr] have "ids_below_next m2" "next_id m \<le> next_id m2"
      by simp_all
    with Some Inr m1 show ?thesis
      by (auto simp: toggle_completion_def Let_def save_todos_def ids_below_next_iff)
  qed
qed

lemma update_todo_next_id: "next_id (snd (update_todo clk i ttl descr prio cat due rec m)) = next_id m"
proof (cases "first_with_id i (todos m)")
  case None
  then show ?thesis by (simp add: update_todo_missing)
next
  case (Some k)
  from update_todo_shape [OF Some] show ?thesis by blast
qed

lemma update_todo_ids:
  assumes "ids_below_next m"
  shows "ids_below_next (snd (update_todo clk i ttl descr prio cat due rec m))"
proof (cases "first_with_id i (todos m)")
  case None
  with assms show ?thesis by (simp add: update_todo_missing)
next
  case (Some k)
  from first_with_id_Some [OF Some] have k: "k < length (todos m)" by simp
  from update_todo_shape [OF Some, of clk ttl descr prio cat due rec]
  obtain t where t: "item_id t = item_id (todos m ! k)"
      "todos (snd (update_todo clk i ttl descr prio cat due rec m)) = (todos m)[k := t]"
      "next_id (snd (update_todo clk i ttl descr prio cat due rec m)) = next_id m"
    by blast
  show ?thesis
    using assms k t by (auto simp: ids_below_next_iff set_conv_nth nth_list_update)
qed

lemma set_priority_id: "set_priority p t = Inr t' \<Longrightarrow> item_id t' = item_id t"
  by (auto simp: set_priority_def split: option.splits if_splits)

lemma set_due_date_id: "set_due_date p t = Inr t' \<Longrightarrow> item_id t' = item_id t"
  by (auto simp: set_due_date_def split: option.splits if_splits)

lemma set_recurring_pattern_id: "set_recurring_pattern p t = Inr t' \<Longrightarrow> item_id t' = item_id t"
  by (auto simp: set_recurring_pattern_def split: option.splits if_splits)

lemma put_ids:
  "ids_below_next m \<Longrightarrow> k < length (todos m) \<Longrightarrow> item_id t = item_id (todos m ! k) \<Longrightarrow>
     ids_below_next (put k t m)"
  by (auto simp: ids_below_next_iff put_def set_conv_nth nth_list_update)

subsection \<open>Invariants of a session\<close>

lemma list_todos_next_id: "next_id (snd (list_todos fromiso sc sp m)) = next_id m"
  by (auto simp: list_todos_def Let_def split: sum.splits)

lemma list_todos_mset: "mset (todos (snd (list_todos fromiso sc sp m))) = mset (todos m)"
  by (auto simp: list_todos_def Let_def split: sum.splits dest: sort_reverse_mset)

lemma list_todos_set: "set (todos (snd (list_todos fromiso sc sp m))) = set (todos m)"
  by (metis list_todos_mset set_mset_mset)

lemma list_todos_ids: "ids_below_next m \<Longrightarrow> ids_below_next (snd (list_todos fromiso sc sp m))"
  by (simp add: ids_below_next_iff list_todos_set list_todos_next_id)

lemma update_next_id_ids: "ids_below_next (update_next_id m)"
  by (simp add: ids_below_next_iff update_next_id_todos update_next_id_bound)

lemma load_todos_ids:
  assumes "ids_below_next m" and "load_todos clk m = Inr m'"
  shows "ids_below_next m'"
proof (cases "storage m")
  case (Stored es)
  show ?thesis
  proof (cases "from_dicts clk es")
    case (Inl e)
    with Stored assms(2) show ?thesis
      by (auto simp: load_todos_def ids_below_next_def split: if_splits)
  next
    case (Inr ts)
    with Stored assms(2) show ?thesis by (auto simp: load_todos_def update_next_id_ids)
  qed
qed (use assms in \<open>auto simp: load_todos_def ids_below_next_def\<close>)

lemma TodoManager_init_ids: "TodoManager_init clk f = Inr m \<Longrightarrow> ids_below_next m"
  by (auto simp: TodoManager_init_def update_next_id_ids split: sum.splits)

lemma exec_ids: "ids_below_next m \<Longrightarrow> ids_below_next (exec fromiso strf clk c m)"
proof (cases c)
  case Load
  assume "ids_below_next m"
  with Load load_todos_ids [of m clk] show ?thesis by (cases "load_todos clk m") simp_all
qed (simp_all add: add_todo_ids remove_todo_ids toggle_completion_ids update_todo_ids
        list_todos_ids)

lemma run_ids: "ids_below_next m \<Longrightarrow> ids_below_next (run fromiso strf clks cs m)"
  by (induction cs arbitrary: m clks) (simp_all add: exec_ids)

lemma exec_next_id_mono:
  assumes "ids_below_next m" and "c \<noteq> Load"
  shows "next_id m \<le> next_id (exec fromiso strf clk c m)"
proof (cases c)
  case (Add ttl descr prio cat due rec)
  then show ?thesis by (simp add: add_todo_next_id split: option.splits)
next
  case (Toggle i)
  then show ?thesis using toggle_completion_ids [OF assms(1)] by simp
qed (use assms in \<open>simp_all add: remove_todo_next_id update_todo_next_id list_todos_next_id\<close>)

lemma added_ids_Add:
  "added_ids fromiso strf clks (Add ttl descr prio cat due rec # cs) m
     = (case fst (add_todo (clks 0) ttl descr prio cat due rec m) of
          None \<Rightarrow> [] | Some t \<Rightarrow> [item_id t])
       @ added_ids fromiso strf (\<lambda>k. clks (Suc k)) cs
           (snd (add_todo (clks 0) ttl descr prio cat due rec m))"
  by simp

lemma added_ids_other:
  "\<forall>ttl descr prio cat due rec. c \<noteq> Add ttl descr prio cat due rec \<Longrightarrow>
     added_ids fromiso strf clks (c # cs) m
       = added_ids fromiso strf (\<lambda>k. clks (Suc k)) cs (exec fromiso strf (clks 0) c m)"
  by (cases c) auto

lemma added_ids_lower:
  "ids_below_next m \<Longrightarrow> Load \<notin> set cs \<Longrightarrow> x \<in> set (added_ids fromiso strf clks cs m) \<Longrightarrow>
     next_id m \<le> x"
proof (induction cs arbitrary: m clks)
  case Nil
  then show ?case by simp
next
  case (Cons c cs)
  let ?m' = "exec fromiso strf (clks 0) c m"
  from Cons.prems(2) have c: "c \<noteq> Load" and cs: "Load \<notin> set cs" by auto
  have m': "ids_below_next ?m'" using Cons.prems(1) by (rule exec_ids)
  have mono: "next_id m \<le> next_id ?m'" using Cons.prems(1) c by (rule exec_next_id_mono)
  have tail: "x \<in> set (added_ids fromiso strf (\<lambda>k. clks (Suc k)) cs ?m') \<Longrightarrow> next_id m \<le> x"
    using Cons.IH [OF m' cs] mono by fastforce
  show ?case
  proof (cases "\<exists>ttl descr prio cat due rec. c = Add ttl descr prio cat due rec")
    case True
    then obtain ttl descr prio cat due rec where Add: "c = Add ttl descr prio cat due rec"
      by blast
    show ?thesis
    proof (cases "add_todo (clks 0) ttl descr prio cat due rec m")
      case (Pair r m1)
      show ?thesis
      proof (cases r)
        case None
        with Pair Add Cons.prems(3) tail show ?thesis by simp
      next
        case (Some t)
        with Pair have "item_id t = next_id m" using add_todo_success by blast
        with Pair Some Add Cons.prems(3) tail show ?thesis by auto
      qed
    qed
  next
    case False
    then have eq: "added_ids fromiso strf clks (c # cs) m
                 = added_ids fromiso strf (\<lambda>k. clks (Suc k)) cs ?m'"
      by (intro added_ids_other) simp
    from Cons.prems(3) have "x \<in> set (added_ids fromiso strf (\<lambda>k. clks (Suc k)) cs ?m')"
      by (simp only: eq)
    then show ?thesis by (rule tail)
  qed
qed

lemma added_ids_sorted:
  "ids_below_next m \<Longrightarrow> Load \<notin> set cs \<Longrightarrow> sorted_wrt (<) (added_ids fromiso strf clks cs m)"
proof (induction cs arbitrary: m clks)
  case Nil
  then show ?case by simp
next
  case (Cons c cs)
  let ?m' = "exec fromiso strf (clks 0) c m"
  from Cons.prems(2) have cs: "Load \<notin> set cs" by auto
  have m': "ids_below_next ?m'" using Cons.prems(1) by (rule exec_ids)
  have tail: "sorted_wrt (<) (added_ids fromiso strf (\<lambda>k. clks (Suc k)) cs ?m')"
    using m' cs by (rule Cons.IH)
  have low: "\<And>x. x \<in> set (added_ids fromiso strf (\<lambda>k. clks (Suc k)) cs ?m') \<Longrightarrow> next_id ?m' \<le> x"
    using m' cs by (rule added_ids_lower)
  show ?case
  proof (cases "\<exists>ttl descr prio cat due rec. c = Add ttl descr prio cat due rec")
    case True
    then obtain ttl descr prio cat due rec where Add: "c = Add ttl descr prio cat due rec"
      by blast
    show ?thesis
    proof (cases "add_todo (clks 0) ttl descr prio cat due rec m")
      case (Pair r m1)
      show ?thesis
      proof (cases r)
        case None
        with Pair Add tail show ?thesis by simp
      next
        case (Some t)
        with Pair have "item_id t = next_id m" "next_id m1 = next_id m + 1"
          using add_todo_success by blast+
        with Pair Some Add tail low show ?thesis by (fastforce simp: sorted_wrt_append)
      qed
    qed
  next
    case False
    then have eq: "added_ids fromiso strf clks (c # cs) m
                 = added_ids fromiso strf (\<lambda>k. clks (Suc k)) cs ?m'"
      by (intro added_ids_other) simp
    show ?thesis by (simp only: eq tail)
  qed
qed

subsection \<open>Ids of added items\<close>

lemma add_task_success:
  "add_task now ttl descr core = (Inr t, core') \<Longrightarrow>
     tk_id t = core_next_id core \<and> tk_status t = ''pending'' \<and> tasks core' = tasks core @ [t]
     \<and> core_next_id core' = core_next_id core + 1"
  by (auto simp: add_task_def Let_def split: if_splits)

lemma add_task_failure: "add_task now ttl descr core = (Inl e, core') \<Longrightarrow> core' = core"
  by (auto simp: add_task_def Let_def split: if_splits)

lemma core_exec_next_id_mono: "core_next_id core \<le> core_next_id (core_exec c core)"
  by (cases c)
     (auto simp: add_task_def update_task_core_def delete_task_core_def mark_task_completed_def
        Let_def split: option.splits)

lemma core_added_ids_lower:
  "x \<in> set (core_added_ids cs core) \<Longrightarrow> core_next_id core \<le> x"
proof (induction cs arbitrary: core)
  case Nil
  then show ?case by simp
next
  case (Cons c cs)
  have tail: "x \<in> set (core_added_ids cs (core_exec c core)) \<Longrightarrow> core_next_id core \<le> x"
    using Cons.IH [of "core_exec c core"] core_exec_next_id_mono [of core c] by fastforce
  show ?case
  proof (cases c)
    case (AddTask now ttl descr)
    show ?thesis
    proof (cases "add_task now ttl descr core")
      case (Pair r core1)
      show ?thesis
      proof (cases r)
        case (Inl e)
        with Pair AddTask Cons.prems tail show ?thesis by simp
      next
        case (Inr t)
        with Pair have "tk_id t = core_next_id core" using add_task_success by blast
        with Pair Inr AddTask Cons.prems tail show ?thesis by auto
      qed
    qed
  qed (use Cons.prems tail in simp_all)
qed

lemma core_added_ids_sorted: "sorted_wrt (<) (core_added_ids cs core)"
proof (induction cs arbitrary: core)
  case Nil
  then show ?case by simp
next
  case (Cons c cs)
  have tail: "sorted_wrt (<) (core_added_ids cs (core_exec c core))" by (rule Cons.IH)
  show ?case
  proof (cases c)
    case (AddTask now ttl descr)
    show ?thesis
    proof (cases "add_task now ttl descr core")
      case (Pair r core1)
      show ?thesis
      proof (cases r)
        case (Inl e)
        with Pair AddTask tail show ?thesis by simp
      next
        case (Inr t)
        with Pair have "tk_id t = core_next_id core" "core_next_id core1 = core_next_id core + 1"
          using add_task_success by blast+
        with Pair Inr AddTask tail core_added_ids_lower [of _ cs core1]
        show ?thesis by (fastforce simp: sorted_wrt_append)
      qed
    qed
  qed (use tail in simp_all)
qed

lemma TodoManager_init_next_id:
  "TodoManager_init clk f = Inr m \<Longrightarrow>
     next_id m = (if todos m = [] then 1 else Max (item_id ` set (todos m)) + 1)"
  by (auto simp: TodoManager_init_def update_next_id_value update_next_id_todos split: sum.splits)

text \<open>
  Claim C4, as amended. A successful add returns an item whose id is the counter
  \<open>next_id\<close>, appended to the list with \<open>completed = False\<close> (status \<open>pending\<close> in the
  in-memory variant), and advances the counter by one. The counter is the largest id plus
  one, or 1 for an empty list, when the manager is constructed; in every state of a session
  it lies above every id of the list; and the ids that the adds of one session return are
  strictly increasing.
\<close>

theorem add_assigns_next_id:
  "(add_todo clk ttl descr prio cat due rec m = (Some t, m')
      \<longrightarrow> item_id t = next_id m \<and> \<not> completed t \<and> todos m' = todos m @ [t]
          \<and> next_id m' = next_id m + 1)
   \<and> (add_task now ttl' descr' core = (Inr tk, core')
      \<longrightarrow> tk_id tk = core_next_id core \<and> tk_status tk = ''pending''
          \<and> tasks core' = tasks core @ [tk] \<and> core_next_id core' = core_next_id core + 1)
   \<and> (TodoManager_init clk f = Inr m0
      \<longrightarrow> next_id m0 = (if todos m0 = [] then 1 else Max (item_id ` set (todos m0)) + 1)
          \<and> ids_below_next (run fromiso strf clks cs m0)
          \<and> (Load \<notin> set cs \<longrightarrow> sorted_wrt (<) (added_ids fromiso strf clks cs m0)))
   \<and> sorted_wrt (<) (core_added_ids ccs TodoCore_init)"
  using add_todo_success [of clk ttl descr prio cat due rec m t m']
    add_task_success [of now ttl' descr' core tk core']
    TodoManager_init_next_id [of clk f m0]
    run_ids [OF TodoManager_init_ids, of clk f m0 fromiso strf clks cs]
    added_ids_sorted [OF TodoManager_init_ids, of clk f m0 cs fromiso strf clks]
    core_added_ids_sorted [of ccs TodoCore_init]
  by blast

lemma session0_ids:
  "added_ids fromisoformat strftime_ymd clocks0 session0 mgr_fresh = [1, 2]"
  by code_simp

lemma core_session0_ids: "core_added_ids core_session0 TodoCore_init = [1, 2]"
  by code_simp

lemma add_example:
  "add_todo clock0 ''Buy milk'' [] ''Low'' [] [] [] (mgr [item_plain] 2)
     = (Some (TodoItem_init 2 ''Buy milk'' [] False None ''Low'' [] [] []
                ''2024-05-01T09:00:00'' ''2024-05-01T09:00:00''),
        mgr [item_plain, TodoItem_init 2 ''Buy milk'' [] False None ''Low'' [] [] []
                ''2024-05-01T09:00:00'' ''2024-05-01T09:00:00''] 3)"
  by code_simp

lemma add_task_example:
  "add_task (738886, 0) ''  Buy milk '' [] TodoCore_init
     = (Inr \<lparr> tk_id = 1, tk_title = ''Buy milk'', tk_description = [], tk_status = ''pending'',
              tk_created_at = (738886, 0) \<rparr>,
        \<lparr> tasks = [\<lparr> tk_id = 1, tk_title = ''Buy milk'', tk_description = [],
                      tk_status = ''pending'', tk_created_at = (738886, 0) \<rparr>],
          core_next_id = 2 \<rparr>)"
  by code_simp

theorem add_assigns_next_id_witness:
  "add_todo clock0 ''Buy milk'' [] ''Low'' [] [] [] (mgr [item_plain] 2)
     = (Some (TodoItem_init 2 ''Buy milk'' [] False None ''Low'' [] [] []
                ''2024-05-01T09:00:00'' ''2024-05-01T09:00:00''),
        mgr [item_plain, TodoItem_init 2 ''Buy milk'' [] False None ''Low'' [] [] []
                ''2024-05-01T09:00:00'' ''2024-05-01T09:00:00''] 3)
   \<and> item_id (TodoItem_init 2 ''Buy milk'' [] False None ''Low'' [] [] []
                ''2024-05-01T09:00:00'' ''2024-05-01T09:00:00'') = next_id (mgr [item_plain] 2)
   \<and> TodoManager_init clock0 NoFile = Inr mgr_fresh
   \<and> next_id mgr_fresh = 1
   \<and> Load \<notin> set session0
   \<and> added_ids fromisoformat strftime_ymd clocks0 session0 mgr_fresh = [1, 2]
   \<and> sorted_wrt (<) (added_ids fromisoformat strftime_ymd clocks0 session0 mgr_fresh)
   \<and> ids_below_next (run fromisoformat strftime_ymd clocks0 session0 mgr_fresh)
   \<and> sorted_wrt (<) (core_added_ids core_session0 TodoCore_init)"
  using add_assigns_next_id [of clock0 "''Buy milk''" "[]" "''Low''" "[]" "[]" "[]"
      "mgr [item_plain] 2"
      "TodoItem_init 2 ''Buy milk'' [] False None ''Low'' [] [] []
                ''2024-05-01T09:00:00'' ''2024-05-01T09:00:00''"
      "mgr [item_plain, TodoItem_init 2 ''Buy milk'' [] False None ''Low'' [] [] []
                ''2024-05-01T09:00:00'' ''2024-05-01T09:00:00''] 3"
      "(738886, 0)" "''  Buy milk ''" "[]" TodoCore_init
      "\<lparr> tk_id = 1, tk_title = ''Buy milk'', tk_description = [], tk_status = ''pending'',
              tk_created_at = (738886, 0) \<rparr>"
      "\<lparr> tasks = [\<lparr> tk_id = 1, tk_title = ''Buy milk'', tk_description = [],
                      tk_status = ''pending'', tk_created_at = (738886, 0) \<rparr>],
          core_next_id = 2 \<rparr>"
      NoFile mgr_fresh fromisoformat strftime_ymd clocks0 session0 core_session0]
    add_example add_task_example session0_ids init_fresh
  by (simp add: session0_def mgr_fresh_def)

text \<open>
  Claim C4 as stated fails once an item was removed: after one add and the removal of that
  item the collection is empty and the next add returns the id 2, not 1, in both
  command-line variants.
\<close>

theorem add_after_remove_counterexample:
  "TodoManager_init clock0 NoFile = Inr mgr_fresh
   \<and> todos mgr_emptied = []
   \<and> map_option item_id (fst (add_todo clock0 ''second'' [] ''Medium'' [] [] [] mgr_emptied)) = Some 2
   \<and> tasks core_emptied = []
   \<and> map_sum id tk_id (fst (add_task (738887, 0) ''second'' [] core_emptied)) = Inr 2"
  by code_simp

subsection \<open>Searching the in-memory list\<close>

lemma first_task_with_id_None: "(first_task_with_id i ts = None) = (i \<notin> tk_id ` set ts)"
  by (induction ts) (auto split: option.splits)

subsection \<open>Ownership and existence in the web routes\<close>

lemma get_task_by_id_absent:
  "task_id \<notin> db_id ` set (table s) \<Longrightarrow> get_task_by_id s task_id user_id = None"
  by (auto simp: get_task_by_id_def find_None_iff)

lemma route_forbidden:
  "uid cu \<noteq> Some (path_user_id req) \<Longrightarrow>
     route req cu s = (Inl (HTTPException 403 (forbidden_detail req)), s)"
  by (cases req)
     (simp_all add: forbidden_detail_def create_new_task_def read_tasks_def read_task_def
        update_existing_task_def delete_existing_task_def toggle_task_complete_def)

lemma route_not_found:
  "uid cu = Some (path_user_id req) \<Longrightarrow> path_task_id req = Some tid \<Longrightarrow>
   get_task_by_id s tid (path_user_id req) = None \<Longrightarrow>
     route req cu s = (Inl (HTTPException 404 ''Task not found''), s)"
  by (cases req)
     (simp_all add: read_task_def update_existing_task_def delete_existing_task_def
        toggle_task_complete_def update_task_def delete_task_def toggle_task_completion_def)

lemma route_404_only:
  assumes "fst (route req cu s) = Inl (HTTPException 404 d)"
  shows "uid cu = Some (path_user_id req)
         \<and> (\<exists>tid. path_task_id req = Some tid \<and> get_task_by_id s tid (path_user_id req) = None)"
proof -
  have auth: "uid cu = Some (path_user_id req)"
  proof (rule ccontr)
    assume "uid cu \<noteq> Some (path_user_id req)"
    from route_forbidden [OF this, of s] assms show False by simp
  qed
  show ?thesis
  proof (cases req)
    case (CreateNewTask now1 now2 user_id task)
    with assms auth show ?thesis
      by (simp add: create_new_task_def create_task_def Let_def)
  next
    case (ReadTasks user_id c)
    with assms auth show ?thesis by (simp add: read_tasks_def)
  next
    case (ReadTask user_id task_id)
    with assms auth show ?thesis
      by (cases "get_task_by_id s task_id user_id") (simp_all add: read_task_def)
  next
    case (UpdateExistingTask now user_id task_id u)
    with assms auth show ?thesis
      by (cases "get_task_by_id s task_id user_id")
         (simp_all add: update_existing_task_def update_task_def Let_def)
  next
    case (DeleteExistingTask user_id task_id)
    with assms auth show ?thesis
      by (cases "get_task_by_id s task_id user_id")
         (simp_all add: delete_existing_task_def delete_task_def)
  next
    case (ToggleTaskComplete now user_id task_id c)
    with assms auth show ?thesis
      by (cases "get_task_by_id s task_id user_id")
         (simp_all add: toggle_task_complete_def toggle_task_completion_def Let_def)
  qed
qed

text \<open>
  Claim C5. For each of the six task routes: when the id of the authenticated user differs
  from the \<open>user_id\<close> of the path, the handler raises HTTP 403 with a detail that depends on
  the route alone and leaves the table as it is, so that any two tables give the same
  response; a handler raises HTTP 404 only when the ids agree and no task of that user has
  the requested id, and in that case it does raise it.
\<close>

theorem ownership_before_existence:
  "(uid cu \<noteq> Some (path_user_id req)
      \<longrightarrow> route req cu s = (Inl (HTTPException 403 (forbidden_detail req)), s)
          \<and> fst (route req cu s) = fst (route req cu s'))
   \<and> (fst (route req cu s) = Inl (HTTPException 404 d)
      \<longrightarrow> uid cu = Some (path_user_id req)
          \<and> (\<exists>tid. path_task_id req = Some tid
                   \<and> get_task_by_id s tid (path_user_id req) = None))
   \<and> (uid cu = Some (path_user_id req) \<and> path_task_id req = Some tid
        \<and> get_task_by_id s tid (path_user_id req) = None
      \<longrightarrow> route req cu s = (Inl (HTTPException 404 ''Task not found''), s))"
proof (intro conjI impI)
  assume "uid cu \<noteq> Some (path_user_id req)"
  then show "route req cu s = (Inl (HTTPException 403 (forbidden_detail req)), s)"
    by (rule route_forbidden)
next
  assume a: "uid cu \<noteq> Some (path_user_id req)"
  show "fst (route req cu s) = fst (route req cu s')"
    by (simp add: route_forbidden [OF a])
next
  assume "fst (route req cu s) = Inl (HTTPException 404 d)"
  then show "uid cu = Some (path_user_id req)"
    using route_404_only by blast
next
  assume "fst (route req cu s) = Inl (HTTPException 404 d)"
  then show "\<exists>tid. path_task_id req = Some tid \<and> get_task_by_id s tid (path_user_id req) = None"
    using route_404_only by blast
next
  assume "uid cu = Some (path_user_id req) \<and> path_task_id req = Some tid
        \<and> get_task_by_id s tid (path_user_id req) = None"
  then show "route req cu s = (Inl (HTTPException 404 ''Task not found''), s)"
    using route_not_found by blast
qed

theorem ownership_before_existence_witness:
  "uid alice \<noteq> Some (path_user_id (ReadTask 2 7))
   \<and> get_task_by_id db0 7 2 = Some row7
   \<and> get_task_by_id db_empty 7 2 = None
   \<and> route (ReadTask 2 7) alice db0
       = (Inl (HTTPException 403 ''Not authorized to access tasks for this user''), db0)
   \<and> fst (route (ReadTask 2 7) alice db0) = fst (route (ReadTask 2 7) alice db_empty)
   \<and> uid alice = Some (path_user_id (DeleteExistingTask 1 7))
   \<and> get_task_by_id db0 7 1 = None
   \<and> route (DeleteExistingTask 1 7) alice db0
       = (Inl (HTTPException 404 ''Task not found''), db0)"
proof -
  have other: "uid alice \<noteq> Some (path_user_id (ReadTask 2 7))"
    by (simp add: alice_def)
  have own: "uid alice = Some (path_user_id (DeleteExistingTask 1 7))"
    by (simp add: alice_def)
  have there: "get_task_by_id db0 7 2 = Some row7"
    and absent: "get_task_by_id db_empty 7 2 = None"
    and hidden: "get_task_by_id db0 7 1 = None"
    by (simp_all add: get_task_by_id_def db0_def db_empty_def row7_def)
  have detail: "forbidden_detail (ReadTask 2 7) = ''Not authorized to access tasks for this user''"
    by (simp add: forbidden_detail_def)
  from ownership_before_existence [of alice "ReadTask 2 7" db0 db_empty] other
  have r1: "route (ReadTask 2 7) alice db0
              = (Inl (HTTPException 403 (forbidden_detail (ReadTask 2 7))), db0)"
    and r2: "fst (route (ReadTask 2 7) alice db0) = fst (route (ReadTask 2 7) alice db_empty)"
    by blast+
  from ownership_before_existence [of alice "DeleteExistingTask 1 7" db0 db0 "[]" 7] own hidden
  have r3: "route (DeleteExistingTask 1 7) alice db0
              = (Inl (HTTPException 404 ''Task not found''), db0)"
    by simp
  from other own there absent hidden r1 [unfolded detail] r2 r3 show ?thesis
    by (intro conjI)
qed

subsection \<open>Deleting an id that is not there\<close>

text \<open>
  Claim C8. When no item has the id, \<open>remove_todo\<close> and the in-memory \<open>delete_task\<close> return
  \<open>False\<close> and the state after the call is the state before it (list, counter, file and
  output alike); the web service \<open>delete_task\<close> returns \<open>False\<close> and the route, for the
  owner, raises HTTP 404, both with the table unchanged.
\<close>

theorem delete_missing_unchanged:
  "(todo_id \<notin> item_id ` set (todos m) \<longrightarrow> remove_todo todo_id m = (False, m))
   \<and> (i \<notin> tk_id ` set (tasks core) \<longrightarrow> delete_task_core i core = (False, core))
   \<and> (task_id \<notin> db_id ` set (table s)
      \<longrightarrow> delete_task s task_id user_id = (False, s)
          \<and> (uid cu = Some user_id
             \<longrightarrow> delete_existing_task user_id task_id cu s
                 = (Inl (HTTPException 404 ''Task not found''), s)))"
proof (intro conjI impI)
  assume "todo_id \<notin> item_id ` set (todos m)"
  then have "first_with_id todo_id (todos m) = None" by (simp add: first_with_id_None)
  then show "remove_todo todo_id m = (False, m)" by (simp add: remove_todo_def)
next
  assume "i \<notin> tk_id ` set (tasks core)"
  then have "first_task_with_id i (tasks core) = None" by (simp add: first_task_with_id_None)
  then show "delete_task_core i core = (False, core)" by (simp add: delete_task_core_def)
next
  assume "task_id \<notin> db_id ` set (table s)"
  then have "get_task_by_id s task_id user_id = None" by (rule get_task_by_id_absent)
  then show "delete_task s task_id user_id = (False, s)" by (simp add: delete_task_def)
next
  assume "task_id \<notin> db_id ` set (table s)" and "uid cu = Some user_id"
  then have "get_task_by_id s task_id user_id = None" "uid cu = Some user_id"
    by (simp_all add: get_task_by_id_absent)
  then show "delete_existing_task user_id task_id cu s
               = (Inl (HTTPException 404 ''Task not found''), s)"
    by (simp add: delete_existing_task_def delete_task_def)
qed

theorem delete_missing_unchanged_witness:
  "5 \<notin> item_id ` set (todos (mgr [item_plain] 2))
   \<and> remove_todo 5 (mgr [item_plain] 2) = (False, mgr [item_plain] 2)
   \<and> 1 \<notin> tk_id ` set (tasks TodoCore_init)
   \<and> delete_task_core 1 TodoCore_init = (False, TodoCore_init)
   \<and> 9 \<notin> db_id ` set (table db0)
   \<and> delete_task db0 9 1 = (False, db0)
   \<and> uid alice = Some 1
   \<and> delete_existing_task 1 9 alice db0 = (Inl (HTTPException 404 ''Task not found''), db0)"
proof -
  have a: "5 \<notin> item_id ` set (todos (mgr [item_plain] 2))"
    by (simp add: mgr_def item_plain_def)
  have b: "1 \<notin> tk_id ` set (tasks TodoCore_init)"
    by (simp add: TodoCore_init_def)
  have c: "9 \<notin> db_id ` set (table db0)"
    by (simp add: db0_def row7_def)
  have d: "uid alice = Some 1"
    by (simp add: alice_def)
  from delete_missing_unchanged [of 5 "mgr [item_plain] 2" 1 TodoCore_init 9 db0 1 alice] a b c d
  show ?thesis by blast
qed

subsection \<open>Saving and loading\<close>

lemma from_dict_to_dict: "constructed t \<Longrightarrow> from_dict a b c (to_dict t) = Inr t"
  by (simp add: from_dict_def to_dict_def TodoItem_init_def get_or_def constructed_def
        validate_priority_def)

lemma from_dicts_dump: "list_all constructed ts \<Longrightarrow> from_dicts clk (dump ts) = Inr ts"
  by (induction ts arbitrary: clk) (simp_all add: dump_def from_dict_to_dict)

lemma load_save_todos:
  "list_all constructed (todos m) \<Longrightarrow>
     load_todos clk (save_todos m) = Inr (update_next_id (save_todos m))"
  by (simp add: load_todos_def save_todos_def from_dicts_dump update_next_id_def
        split: list.splits)




text \<open>
  What the \<open>except\<close> clause does not name leaves \<open>load_todos\<close>, and with it the constructor:
  \<open>UnicodeDecodeError\<close> for bytes that are not text, \<open>RecursionError\<close> for JSON nested too
  deeply, \<open>TypeError\<close> for JSON that is not a sequence of dictionaries.
\<close>

lemma load_todos_escapes:
  "(storage m = Undecodable \<longrightarrow> load_todos clk m = Inl UnicodeDecodeError)
   \<and> (storage m = TooDeep \<longrightarrow> load_todos clk m = Inl RecursionError)
   \<and> (storage m = Scalar \<longrightarrow> load_todos clk m = Inl TypeError)
   \<and> (storage m = Stored (NotDict # es) \<longrightarrow> load_todos clk m = Inl TypeError)"
  by (simp add: load_todos_def)




subsection \<open>What every item satisfies\<close>

lemma item_ok_True: "item_ok True t = constructed t"
  by (simp add: item_ok_def constructed_def)

lemma item_ok_False: "item_ok False t = validate_priority (priority t)"
  by (simp add: item_ok_def)

lemma TodoItem_init_ok:
  "\<not> c \<or> now_c \<noteq> [] \<Longrightarrow>
     item_ok c (TodoItem_init i ttl descr compl created prio cat due rec now_c now_u)"
  by (auto simp: item_ok_def TodoItem_init_def validate_priority_def split: option.splits)

lemma add_todo_ok:
  assumes "clock_ok c clk" and "list_all (item_ok c) (todos m)"
  shows "list_all (item_ok c) (todos (snd (add_todo clk ttl descr prio cat due rec m)))"
proof -
  have "item_ok c (TodoItem_init (next_id m) ttl descr False None prio cat due rec (clk 0) (clk 1))"
    using assms(1) by (intro TodoItem_init_ok) (auto simp: clock_ok_def)
  with assms(2) show ?thesis
    by (simp add: add_todo_def py_print_def save_todos_def Let_def)
qed

lemma remove_todo_ok:
  "list_all (item_ok c) (todos m) \<Longrightarrow> list_all (item_ok c) (todos (snd (remove_todo i m)))"
  by (auto simp: remove_todo_def save_todos_def list_all_iff split: option.splits
        dest: in_set_takeD in_set_dropD)

lemma list_update_ok:
  "list_all P xs \<Longrightarrow> P y \<Longrightarrow> list_all P (xs[k := y])"
  by (induction xs arbitrary: k) (auto split: nat.splits)

lemma toggle_completion_ok:
  assumes clk: "clock_ok c clk" and ok: "list_all (item_ok c) (todos m)"
  shows "list_all (item_ok c) (todos (snd (toggle_completion fromiso strf clk i m)))"
proof (cases "first_with_id i (todos m)")
  case None
  with ok show ?thesis by (simp add: toggle_completion_def)
next
  case (Some k)
  let ?t = "(todos m ! k)\<lparr>completed := \<not> completed (todos m ! k), updated_at := clk 0\<rparr>"
  let ?m1 = "m\<lparr>todos := (todos m)[k := ?t]\<rparr>"
  from first_with_id_Some [OF Some] have k: "k < length (todos m)" by simp
  with ok have "item_ok c (todos m ! k)" by (simp add: list_all_length)
  then have "item_ok c ?t" by (simp add: item_ok_def)
  with ok have m1: "list_all (item_ok c) (todos ?m1)" by (simp add: list_update_ok)
  show ?thesis
  proof (cases "create_recurring_task fromiso strf (clk 1) (clk 2) ?t ?m1")
    case (Inl e)
    with Some m1 show ?thesis by (auto simp: toggle_completion_def Let_def save_todos_def)
  next
    case (Inr m2)
    have new: "\<And>nd. item_ok c (TodoItem_init (next_id ?m1) (title ?t) (description ?t) False None
                 (priority ?t) (category ?t) nd (recurring_pattern ?t) (clk 1) (clk 2))"
      using clk by (intro TodoItem_init_ok) (auto simp: clock_ok_def)
    from create_recurring_task_Inr [OF Inr] m1 new
    have "list_all (item_ok c) (todos m2)" by (auto simp: save_todos_def)
    with Some Inr m1 show ?thesis by (auto simp: toggle_completion_def Let_def save_todos_def)
  qed
qed

lemma update_todo_ok:
  assumes ok: "list_all (item_ok c) (todos m)"
  shows "list_all (item_ok c) (todos (snd (update_todo clk i ttl descr prio cat due rec m)))"
proof (cases "first_with_id i (todos m)")
  case None
  with ok show ?thesis by (simp add: update_todo_missing)
next
  case (Some k)
  from first_with_id_Some [OF Some] have k: "k < length (todos m)" by simp
  with ok have old: "item_ok c (todos m ! k)" by (simp add: list_all_length)
  from update_todo_shape [OF Some, of clk ttl descr prio cat due rec]
  obtain t where t: "validate_priority (priority (todos m ! k)) \<longrightarrow> validate_priority (priority t)"
      "created_at t = created_at (todos m ! k)"
      "todos (snd (update_todo clk i ttl descr prio cat due rec m)) = (todos m)[k := t]"
    by blast
  from old t(1,2) have "item_ok c t" by (simp add: item_ok_def)
  with ok t(3) show ?thesis by (simp add: list_update_ok)
qed

lemma list_todos_ok:
  "list_all (item_ok c) (todos m) \<Longrightarrow> list_all (item_ok c) (todos (snd (list_todos fromiso sc sp m)))"
  by (simp add: list_all_iff list_todos_set)

lemma from_dict_ok:
  "\<not> c \<or> a \<noteq> [] \<Longrightarrow> from_dict a b d data = Inr t \<Longrightarrow> item_ok c t"
  by (auto simp: from_dict_def item_ok_def TodoItem_init_def validate_priority_def Let_def
        split: option.splits if_splits)

lemma from_dicts_ok:
  "clock_ok c clk \<Longrightarrow> from_dicts clk es = Inr ts \<Longrightarrow> list_all (item_ok c) ts"
proof (induction clk es arbitrary: ts rule: from_dicts.induct)
  case (1 clk)
  then show ?case by simp
next
  case (2 clk es)
  then show ?case by simp
next
  case (3 clk d es)
  from "3.prems"(2) obtain t ts' where t: "from_dict (clk 0) (clk 1) (clk 2) d = Inr t"
    and ts': "from_dicts (\<lambda>n. clk (n + 3)) es = Inr ts'" and ts: "ts = t # ts'"
    by (auto split: sum.splits)
  from "3.prems"(1) have c0: "\<not> c \<or> clk 0 \<noteq> []" and c3: "clock_ok c (\<lambda>n. clk (n + 3))"
    by (auto simp: clock_ok_def)
  from c0 t have "item_ok c t" by (rule from_dict_ok)
  moreover from "3.IH" [OF t c3 ts'] have "list_all (item_ok c) ts'" .
  ultimately show ?case by (simp add: ts)
qed

lemma load_todos_ok:
  assumes "clock_ok c clk" and "list_all (item_ok c) (todos m)" and "load_todos clk m = Inr m'"
  shows "list_all (item_ok c) (todos m')"
proof (cases "storage m")
  case (Stored es)
  show ?thesis
  proof (cases "from_dicts clk es")
    case (Inl e)
    with Stored assms(3) show ?thesis by (auto simp: load_todos_def split: if_splits)
  next
    case (Inr ts)
    with Stored assms(3) from_dicts_ok [OF assms(1) Inr] show ?thesis
      by (auto simp: load_todos_def update_next_id_todos)
  qed
qed (use assms in \<open>auto simp: load_todos_def\<close>)

lemma TodoManager_init_ok:
  assumes "clock_ok c clk" and "TodoManager_init clk f = Inr m"
  shows "list_all (item_ok c) (todos m)"
proof -
  let ?e = "\<lparr> todos = [], next_id = 1, storage = f, stdout = [] \<rparr>"
  from assms(2) obtain m1 where m1: "load_todos clk ?e = Inr m1" and m: "m = update_next_id m1"
    by (auto simp: TodoManager_init_def split: sum.splits)
  from load_todos_ok [OF assms(1) _ m1] have "list_all (item_ok c) (todos m1)" by simp
  with m show ?thesis by (simp add: update_next_id_todos)
qed

lemma exec_ok:
  assumes "clock_ok c clk" and "list_all (item_ok c) (todos m)"
  shows "list_all (item_ok c) (todos (exec fromiso strf clk op m))"
proof (cases op)
  case Load
  with assms load_todos_ok [OF assms, of ] show ?thesis
    by (cases "load_todos clk m") simp_all
qed (use assms in \<open>simp_all add: add_todo_ok remove_todo_ok toggle_completion_ok update_todo_ok
        list_todos_ok\<close>)

lemma run_ok:
  "\<forall>k. clock_ok c (clks k) \<Longrightarrow> list_all (item_ok c) (todos m) \<Longrightarrow>
     list_all (item_ok c) (todos (run fromiso strf clks cs m))"
proof (induction cs arbitrary: m clks)
  case Nil
  then show ?case by simp
next
  case (Cons op cs)
  from Cons.prems have "list_all (item_ok c) (todos (exec fromiso strf (clks 0) op m))"
    by (simp add: exec_ok)
  moreover from Cons.prems(1) have "\<forall>k. clock_ok c (clks (Suc k))" by simp
  ultimately show ?case using Cons.IH [of "\<lambda>k. clks (Suc k)"] by simp
qed

subsection \<open>Priorities\<close>

lemma map_update_same:
  "k < length xs \<Longrightarrow> f y = f (xs ! k) \<Longrightarrow> map f (xs[k := y]) = map f xs"
  by (simp add: map_update list_update_same_conv)

lemma add_todo_invalid_priority:
  "\<not> validate_priority prio \<Longrightarrow>
     fst (add_todo clk ttl descr prio cat due rec m) = None
     \<and> todos (snd (add_todo clk ttl descr prio cat due rec m)) = todos m"
  by (simp add: add_todo_def py_print_def)

lemma update_todo_invalid_priority:
  assumes "\<not> validate_priority prio"
  shows "fst (update_todo clk i ttl descr (Some prio) cat due rec m) = False
         \<and> map priority (todos (snd (update_todo clk i ttl descr (Some prio) cat due rec m)))
             = map priority (todos m)"
proof (cases "first_with_id i (todos m)")
  case None
  then show ?thesis by (simp add: update_todo_missing)
next
  case (Some k)
  from first_with_id_Some [OF Some] have k: "k < length (todos m)" by simp
  let ?t0 = "todos m ! k"
  let ?t1 = "case ttl of None \<Rightarrow> ?t0 | Some v \<Rightarrow> ?t0\<lparr>title := v\<rparr>"
  let ?t2 = "case descr of None \<Rightarrow> ?t1 | Some v \<Rightarrow> ?t1\<lparr>description := v\<rparr>"
  have p: "priority ?t2 = priority ?t0" by (simp split: option.splits)
  from assms obtain msg where "set_priority (Some prio) ?t2 = Inl msg"
    by (simp add: set_priority_def)
  with Some have "update_todo clk i ttl descr (Some prio) cat due rec m
                    = (False, py_print msg (put k ?t2 m))"
    by (simp add: update_todo_def Let_def)
  with k p show ?thesis by (simp add: py_print_def put_def map_update_same)
qed

text \<open>
  Claim C9. In every state of a session, that is after the construction of the manager on
  any storage file and any sequence of add, remove, toggle (with or without regeneration),
  update, list and load calls, also calls that raise, every item's priority is High, Medium
  or Low. The constructor of \<open>TodoItem\<close> stores a priority of the three and replaces any
  other value by Medium; \<open>add_todo\<close> with another priority returns \<open>None\<close> and adds nothing;
  \<open>update_todo\<close> with another priority returns \<open>False\<close> and leaves every priority as it was.
\<close>

theorem priorities_stay_valid:
  "(TodoManager_init clk f = Inr m0
      \<longrightarrow> list_all (\<lambda>t. validate_priority (priority t)) (todos (run fromiso strf clks cs m0)))
   \<and> validate_priority
       (priority (TodoItem_init i ttl descr compl created prio cat due rec now_c now_u))
   \<and> (\<not> validate_priority prio
      \<longrightarrow> priority (TodoItem_init i ttl descr compl created prio cat due rec now_c now_u)
            = ''Medium''
          \<and> fst (add_todo clk ttl descr prio cat due rec m) = None
          \<and> todos (snd (add_todo clk ttl descr prio cat due rec m)) = todos m
          \<and> fst (update_todo clk j ttl' descr' (Some prio) cat' due' rec' m) = False
          \<and> map priority (todos (snd (update_todo clk j ttl' descr' (Some prio) cat' due' rec' m)))
              = map priority (todos m))"
proof (intro conjI impI)
  assume init: "TodoManager_init clk f = Inr m0"
  have "clock_ok False clk" "\<forall>k. clock_ok False (clks k)" by (simp_all add: clock_ok_def)
  with init have "list_all (item_ok False) (todos (run fromiso strf clks cs m0))"
    by (intro run_ok TodoManager_init_ok [of False clk f m0])
  then show "list_all (\<lambda>t. validate_priority (priority t)) (todos (run fromiso strf clks cs m0))"
    by (simp add: list_all_iff item_ok_def)
next
  show "validate_priority
          (priority (TodoItem_init i ttl descr compl created prio cat due rec now_c now_u))"
    by (simp add: TodoItem_init_def validate_priority_def)
next
  assume "\<not> validate_priority prio"
  then show "priority (TodoItem_init i ttl descr compl created prio cat due rec now_c now_u)
               = ''Medium''"
    by (simp add: TodoItem_init_def validate_priority_def)
next
  assume "\<not> validate_priority prio"
  then show "fst (add_todo clk ttl descr prio cat due rec m) = None"
    by (simp add: add_todo_invalid_priority)
next
  assume "\<not> validate_priority prio"
  then show "todos (snd (add_todo clk ttl descr prio cat due rec m)) = todos m"
    by (simp add: add_todo_invalid_priority)
next
  assume "\<not> validate_priority prio"
  then show "fst (update_todo clk j ttl' descr' (Some prio) cat' due' rec' m) = False"
    using update_todo_invalid_priority by blast
next
  assume "\<not> validate_priority prio"
  then show "map priority (todos (snd (update_todo clk j ttl' descr' (Some prio) cat' due' rec' m)))
              = map priority (todos m)"
    using update_todo_invalid_priority by blast
qed

lemma init_urgent:
  "TodoManager_init clock0 (Stored [Dict (dict_minimal\<lparr>dict_priority := Some ''Urgent''\<rparr>)])
     = Inr \<lparr> todos = [\<lparr> item_id = 4, title = ''Call home'', description = [],
                           completed = False, priority = ''Medium'', category = [],
                           due_date = [], recurring_pattern = [],
                           created_at = ''2024-05-01T09:00:00'',
                           updated_at = ''2024-05-01T09:00:00'' \<rparr>],
             next_id = 5,
             storage = Stored [Dict (dict_minimal\<lparr>dict_priority := Some ''Urgent''\<rparr>)],
             stdout = [] \<rparr>"
  by code_simp

lemma session_urgent:
  "map priority (todos (run fromisoformat strftime_ymd clocks0 session_urgent_ops
       \<lparr> todos = [\<lparr> item_id = 4, title = ''Call home'', description = [],
                           completed = False, priority = ''Medium'', category = [],
                           due_date = [], recurring_pattern = [],
                           created_at = ''2024-05-01T09:00:00'',
                           updated_at = ''2024-05-01T09:00:00'' \<rparr>],
             next_id = 5,
             storage = Stored [Dict (dict_minimal\<lparr>dict_priority := Some ''Urgent''\<rparr>)],
             stdout = [] \<rparr>))
     = [''Low'', ''Low'']"
  by code_simp

theorem priorities_stay_valid_witness:
  "TodoManager_init clock0 (Stored [Dict (dict_minimal\<lparr>dict_priority := Some ''Urgent''\<rparr>)])
     = Inr \<lparr> todos = [\<lparr> item_id = 4, title = ''Call home'', description = [],
                           completed = False, priority = ''Medium'', category = [],
                           due_date = [], recurring_pattern = [],
                           created_at = ''2024-05-01T09:00:00'',
                           updated_at = ''2024-05-01T09:00:00'' \<rparr>],
             next_id = 5,
             storage = Stored [Dict (dict_minimal\<lparr>dict_priority := Some ''Urgent''\<rparr>)],
             stdout = [] \<rparr>
   \<and> list_all (\<lambda>t. validate_priority (priority t))
        (todos (run fromisoformat strftime_ymd clocks0 session_urgent_ops
           \<lparr> todos = [\<lparr> item_id = 4, title = ''Call home'', description = [],
                           completed = False, priority = ''Medium'', category = [],
                           due_date = [], recurring_pattern = [],
                           created_at = ''2024-05-01T09:00:00'',
                           updated_at = ''2024-05-01T09:00:00'' \<rparr>],
             next_id = 5,
             storage = Stored [Dict (dict_minimal\<lparr>dict_priority := Some ''Urgent''\<rparr>)],
             stdout = [] \<rparr>))
   \<and> \<not> validate_priority ''Urgent''
   \<and> priority (TodoItem_init 9 ''x'' [] False None ''Urgent'' [] [] [] ''a'' ''b'') = ''Medium''
   \<and> fst (add_todo clock0 ''x'' [] ''Urgent'' [] [] [] (mgr [item_plain] 2)) = None
   \<and> todos (snd (add_todo clock0 ''x'' [] ''Urgent'' [] [] [] (mgr [item_plain] 2))) = [item_plain]
   \<and> fst (update_todo clock0 1 (Some ''y'') None (Some ''Urgent'') None None None
             (mgr [item_plain] 2)) = False
   \<and> map priority (todos (snd (update_todo clock0 1 (Some ''y'') None (Some ''Urgent'') None
                                   None None (mgr [item_plain] 2)))) = [''High'']"
proof -
  have bad: "\<not> validate_priority ''Urgent''" by (simp add: validate_priority_def)
  have m: "todos (mgr [item_plain] 2) = [item_plain]"
    "map priority (todos (mgr [item_plain] 2)) = [''High'']"
    by (simp_all add: mgr_def item_plain_def)
  note inst = priorities_stay_valid
      [of clock0 "Stored [Dict (dict_minimal\<lparr>dict_priority := Some ''Urgent''\<rparr>)]"
          "\<lparr> todos = [\<lparr> item_id = 4, title = ''Call home'', description = [],
                           completed = False, priority = ''Medium'', category = [],
                           due_date = [], recurring_pattern = [],
                           created_at = ''2024-05-01T09:00:00'',
                           updated_at = ''2024-05-01T09:00:00'' \<rparr>],
             next_id = 5,
             storage = Stored [Dict (dict_minimal\<lparr>dict_priority := Some ''Urgent''\<rparr>)],
             stdout = [] \<rparr>"
          fromisoformat strftime_ymd clocks0 session_urgent_ops
          9 "''x''" "[]" False None "''Urgent''" "[]" "[]" "[]" "''a''" "''b''"
          "mgr [item_plain] 2" 1 "Some ''y''" None None None None]
  from inst init_urgent bad m show ?thesis by simp
qed

subsection \<open>The round trip through the file\<close>

text \<open>
  Claim C6. For a collection whose items are as the constructor and the validated
  assignments leave them (a priority of the three, a non-empty \<open>created_at\<close>), \<open>save_todos\<close>
  followed by \<open>load_todos\<close>, or by the construction of another manager on the file, returns
  normally with the same list: the same items in the same order, equal in all ten fields.
  Every state of a session holds such a collection, the clock readings being non-empty as
  \<open>isoformat()\<close> returns them.
\<close>

theorem save_load_round_trip:
  "(list_all constructed (todos m)
      \<longrightarrow> load_todos clk (save_todos m) = Inr (update_next_id (save_todos m))
          \<and> todos (update_next_id (save_todos m)) = todos m
          \<and> map_sum id todos (TodoManager_init clk (storage (save_todos m))) = Inr (todos m))
   \<and> (TodoManager_init clk0 f = Inr m0 \<and> (\<forall>n. clk0 n \<noteq> []) \<and> (\<forall>k n. clks k n \<noteq> [])
      \<longrightarrow> list_all constructed (todos (run fromiso strf clks cs m0)))"
proof (intro conjI impI)
  assume ok: "list_all constructed (todos m)"
  then show "load_todos clk (save_todos m) = Inr (update_next_id (save_todos m))"
    by (rule load_save_todos)
  show "todos (update_next_id (save_todos m)) = todos m"
    by (simp add: update_next_id_todos save_todos_def)
  let ?e = "\<lparr> todos = [], next_id = 1, storage = storage (save_todos m), stdout = [] \<rparr>"
  have "load_todos clk ?e = Inr (update_next_id (?e\<lparr>todos := todos m\<rparr>))"
    using ok by (simp add: load_todos_def save_todos_def from_dicts_dump)
  then show "map_sum id todos (TodoManager_init clk (storage (save_todos m))) = Inr (todos m)"
    by (simp add: TodoManager_init_def update_next_id_todos)
next
  assume a: "TodoManager_init clk0 f = Inr m0 \<and> (\<forall>n. clk0 n \<noteq> []) \<and> (\<forall>k n. clks k n \<noteq> [])"
  then have "clock_ok True clk0" "\<forall>k. clock_ok True (clks k)" "TodoManager_init clk0 f = Inr m0"
    by (simp_all add: clock_ok_def)
  then have "list_all (item_ok True) (todos (run fromiso strf clks cs m0))"
    by (intro run_ok TodoManager_init_ok [of True clk0 f m0])
  then show "list_all constructed (todos (run fromiso strf clks cs m0))"
    by (simp add: list_all_iff item_ok_def constructed_def)
qed

lemma round_trip_example:
  "load_todos clock0 (save_todos (mgr [item_plain, item_daily] 7))
     = Inr (mgr [item_plain, item_daily] 3)"
  by code_simp

theorem save_load_round_trip_witness:
  "list_all constructed (todos (mgr [item_plain, item_daily] 7))
   \<and> load_todos clock0 (save_todos (mgr [item_plain, item_daily] 7))
       = Inr (mgr [item_plain, item_daily] 3)
   \<and> todos (mgr [item_plain, item_daily] 3) = todos (mgr [item_plain, item_daily] 7)
   \<and> map_sum id todos (TodoManager_init clock0 (storage (save_todos (mgr [item_plain, item_daily] 7))))
       = Inr [item_plain, item_daily]
   \<and> TodoManager_init clock0 NoFile = Inr mgr_fresh
   \<and> (\<forall>n. clock0 n \<noteq> []) \<and> (\<forall>k n. clocks0 k n \<noteq> [])
   \<and> list_all constructed (todos (run fromisoformat strftime_ymd clocks0 session0 mgr_fresh))"
proof -
  have c: "list_all constructed (todos (mgr [item_plain, item_daily] 7))"
    by (simp add: mgr_def item_plain_def item_daily_def constructed_def validate_priority_def)
  have t: "todos (mgr [item_plain, item_daily] 7) = [item_plain, item_daily]"
    "todos (mgr [item_plain, item_daily] 3) = [item_plain, item_daily]"
    by (simp_all add: mgr_def)
  have k: "\<forall>n. clock0 n \<noteq> []" "\<forall>k n. clocks0 k n \<noteq> []"
    by (simp_all add: clock0_def clocks0_def)
  note inst = save_load_round_trip [of "mgr [item_plain, item_daily] 7" clock0 clock0 NoFile
      mgr_fresh clocks0 fromisoformat strftime_ymd session0]
  from inst c t k init_fresh round_trip_example show ?thesis by simp
qed

subsection \<open>Listing\<close>

lemma keys_of_zip:
  "keys_of key xs = Inr ks \<Longrightarrow> p \<in> set (zip ks xs) \<Longrightarrow> key (snd p) = Inr (fst p)"
proof (induction xs arbitrary: ks)
  case Nil
  then show ?case by simp
next
  case (Cons x xs)
  from Cons.prems(1) obtain k ks' where k: "key x = Inr k" and ks': "keys_of key xs = Inr ks'"
    and ks: "ks = k # ks'"
    by (auto split: sum.splits)
  from Cons.prems(2) ks have "p = (k, x) \<or> p \<in> set (zip ks' xs)" by simp
  then show ?case
  proof
    assume "p = (k, x)"
    with k show ?thesis by simp
  next
    assume "p \<in> set (zip ks' xs)"
    with ks' show ?thesis by (rule Cons.IH)
  qed
qed

lemma keys_of_pairs:
  "\<forall>p \<in> set ps. key (snd p) = Inr (fst p) \<Longrightarrow> keys_of key (map snd ps) = Inr (map fst ps)"
  by (induction ps) simp_all

lemma sort_reverse_sorted:
  assumes "sort_reverse key xs = Inr ys"
  shows "\<exists>ks. keys_of key ys = Inr ks \<and> sorted (rev ks)"
proof -
  from assms obtain ks where ks: "keys_of key xs = Inr ks"
    and ys: "ys = map snd (rev (sort_key fst (rev (zip ks xs))))"
    by (auto simp: sort_reverse_def split: sum.splits)
  let ?ps = "rev (sort_key fst (rev (zip ks xs)))"
  have "\<forall>p \<in> set ?ps. key (snd p) = Inr (fst p)"
    using keys_of_zip [OF ks] by simp
  then have "keys_of key ys = Inr (map fst ?ps)"
    unfolding ys by (rule keys_of_pairs)
  moreover have "sorted (rev (map fst ?ps))"
    by (simp add: rev_map)
  ultimately show ?thesis by blast
qed

lemma list_todos_shown:
  assumes "list_todos fromiso True sp m = (Inr ys, m')"
  shows "m' = m\<lparr>todos := ys\<rparr> \<and> mset ys = mset (todos m)
         \<and> (if sp then \<exists>ks. keys_of (priority_key fromiso) ys = Inr ks \<and> sorted (rev ks)
            else \<exists>ks. keys_of (created_key fromiso) ys = Inr ks \<and> sorted (rev ks))"
proof (cases sp)
  case True
  with assms have s: "sort_reverse (priority_key fromiso) (todos m) = Inr ys" and m': "m' = m\<lparr>todos := ys\<rparr>"
    by (auto simp: list_todos_def split: sum.splits)
  from sort_reverse_mset [OF s] sort_reverse_sorted [OF s] m' True show ?thesis by simp
next
  case False
  with assms have s: "sort_reverse (created_key fromiso) (todos m) = Inr ys" and m': "m' = m\<lparr>todos := ys\<rparr>"
    by (auto simp: list_todos_def split: sum.splits)
  from sort_reverse_mset [OF s] sort_reverse_sorted [OF s] m' False show ?thesis by simp
qed

lemma list_todos_pending:
  assumes "list_todos fromiso False sp m = (r, m')"
  shows "m' = m
         \<and> (\<forall>ys. r = Inr ys \<longrightarrow> mset ys = mset (filter (\<lambda>todo. \<not> completed todo) (todos m))
              \<and> (if sp then \<exists>ks. keys_of (priority_key fromiso) ys = Inr ks \<and> sorted (rev ks)
                 else \<exists>ks. keys_of (created_key fromiso) ys = Inr ks \<and> sorted (rev ks)))"
proof (intro conjI allI impI)
  from assms show "m' = m"
    by (auto simp: list_todos_def Let_def split: sum.splits if_splits)
next
  fix ys
  assume r: "r = Inr ys"
  show "mset ys = mset (filter (\<lambda>todo. \<not> completed todo) (todos m))"
  proof (cases sp)
    case True
    with assms r
    have "sort_reverse (priority_key fromiso) (filter (\<lambda>todo. \<not> completed todo) (todos m)) = Inr ys"
      by (auto simp: list_todos_def Let_def split: sum.splits)
    then show ?thesis by (rule sort_reverse_mset)
  next
    case False
    with assms r
    have "sort_reverse (created_key fromiso) (filter (\<lambda>todo. \<not> completed todo) (todos m)) = Inr ys"
      by (auto simp: list_todos_def Let_def split: sum.splits)
    then show ?thesis by (rule sort_reverse_mset)
  qed
next
  fix ys
  assume r: "r = Inr ys"
  show "if sp then \<exists>ks. keys_of (priority_key fromiso) ys = Inr ks \<and> sorted (rev ks)
        else \<exists>ks. keys_of (created_key fromiso) ys = Inr ks \<and> sorted (rev ks)"
  proof (cases sp)
    case True
    with assms r
    have "sort_reverse (priority_key fromiso) (filter (\<lambda>todo. \<not> completed todo) (todos m)) = Inr ys"
      by (auto simp: list_todos_def Let_def split: sum.splits)
    from sort_reverse_sorted [OF this] True show ?thesis by simp
  next
    case False
    with assms r
    have "sort_reverse (created_key fromiso) (filter (\<lambda>todo. \<not> completed todo) (todos m)) = Inr ys"
      by (auto simp: list_todos_def Let_def split: sum.splits)
    from sort_reverse_sorted [OF this] False show ?thesis by simp
  qed
qed

lemma list_todos_frame:
  "next_id (snd (list_todos fromiso sc sp m)) = next_id m
   \<and> storage (snd (list_todos fromiso sc sp m)) = storage m
   \<and> stdout (snd (list_todos fromiso sc sp m)) = stdout m"
  by (auto simp: list_todos_def Let_def split: sum.splits)


text \<open>
  Claim C10, as amended. \<open>list_todos\<close> never adds, removes or changes an item: the stored
  list after the call is a permutation of the one before, and the counter, the file and the
  output are untouched. With \<open>show_completed\<close> a call that returns leaves the manager with
  the returned list as its stored list, sorted downwards by creation time, or by priority
  and then creation time when \<open>sort_by_priority\<close> is set. Without \<open>show_completed\<close> the manager
  is exactly as before, and only the returned copy of the pending items is sorted.
\<close>

theorem list_todos_sorts_in_place:
  "mset (todos (snd (list_todos fromiso sc sp m))) = mset (todos m)
   \<and> next_id (snd (list_todos fromiso sc sp m)) = next_id m
   \<and> storage (snd (list_todos fromiso sc sp m)) = storage m
   \<and> stdout (snd (list_todos fromiso sc sp m)) = stdout m
   \<and> (list_todos fromiso True sp m = (Inr ys, m')
      \<longrightarrow> m' = m\<lparr>todos := ys\<rparr> \<and> mset ys = mset (todos m)
          \<and> (if sp then \<exists>ks. keys_of (priority_key fromiso) ys = Inr ks \<and> sorted (rev ks)
             else \<exists>ks. keys_of (created_key fromiso) ys = Inr ks \<and> sorted (rev ks)))
   \<and> (list_todos fromiso False sp m = (r, m'')
      \<longrightarrow> m'' = m
          \<and> (\<forall>zs. r = Inr zs
                \<longrightarrow> mset zs = mset (filter (\<lambda>todo. \<not> completed todo) (todos m))
                    \<and> (if sp then \<exists>ks. keys_of (priority_key fromiso) zs = Inr ks \<and> sorted (rev ks)
                       else \<exists>ks. keys_of (created_key fromiso) zs = Inr ks \<and> sorted (rev ks))))"
proof -
  have perm: "mset (todos (snd (list_todos fromiso sc sp m))) = mset (todos m)"
    by (rule list_todos_mset)
  note frame = list_todos_frame [of fromiso sc sp m]
  have shown: "list_todos fromiso True sp m = (Inr ys, m')
      \<longrightarrow> m' = m\<lparr>todos := ys\<rparr> \<and> mset ys = mset (todos m)
          \<and> (if sp then \<exists>ks. keys_of (priority_key fromiso) ys = Inr ks \<and> sorted (rev ks)
             else \<exists>ks. keys_of (created_key fromiso) ys = Inr ks \<and> sorted (rev ks))"
    by (rule impI) (rule list_todos_shown)
  have pending: "list_todos fromiso False sp m = (r, m'')
      \<longrightarrow> m'' = m
          \<and> (\<forall>zs. r = Inr zs
                \<longrightarrow> mset zs = mset (filter (\<lambda>todo. \<not> completed todo) (todos m))
                    \<and> (if sp then \<exists>ks. keys_of (priority_key fromiso) zs = Inr ks \<and> sorted (rev ks)
                       else \<exists>ks. keys_of (created_key fromiso) zs = Inr ks \<and> sorted (rev ks)))"
    by (rule impI) (rule list_todos_pending)
  from perm frame shown pending show ?thesis by (intro conjI) (erule conjE | assumption)+
qed

lemma parse_time_example: "parse_time ''08:00:00'' = Inr 28800000000"
  by (simp add: parse_time_def field_def digit_of_def)

lemma parse_date_examples:
  "parse_date ''2024-01-01'' = Inr 738886" "parse_date ''2024-01-02'' = Inr 738887"
  by code_simp+

lemma created_key_examples:
  "created_key fromisoformat item_plain = Inr (738886, 28800000000)"
  "created_key fromisoformat item_daily = Inr (738887, 28800000000)"
  by (simp_all add: created_key_def item_plain_def item_daily_def fromisoformat_def
        parse_time_example parse_date_examples)

lemma pending_examples: "\<not> completed item_plain" "\<not> completed item_daily"
  by (simp_all add: item_plain_def item_daily_def)

lemma sort_reverse_example:
  "sort_reverse (created_key fromisoformat) [item_plain, item_daily] = Inr [item_daily, item_plain]"
  by (simp add: sort_reverse_def created_key_examples)

lemma list_all_example:
  "list_todos fromisoformat True False (mgr [item_plain, item_daily] 3)
     = (Inr [item_daily, item_plain],
        (mgr [item_plain, item_daily] 3)\<lparr>todos := [item_daily, item_plain]\<rparr>)"
  by (simp add: list_todos_def mgr_def sort_reverse_example)

lemma list_pending_example:
  "list_todos fromisoformat False False (mgr [item_plain, item_daily] 3)
     = (Inr [item_daily, item_plain], mgr [item_plain, item_daily] 3)"
  by (simp add: list_todos_def mgr_def pending_examples sort_reverse_example)

theorem list_todos_sorts_in_place_witness:
  "list_todos fromisoformat True False (mgr [item_plain, item_daily] 3)
     = (Inr [item_daily, item_plain],
        (mgr [item_plain, item_daily] 3)\<lparr>todos := [item_daily, item_plain]\<rparr>)
   \<and> mset [item_daily, item_plain] = mset (todos (mgr [item_plain, item_daily] 3))
   \<and> (\<exists>ks. keys_of (created_key fromisoformat) [item_daily, item_plain] = Inr ks
           \<and> sorted (rev ks))
   \<and> list_todos fromisoformat False False (mgr [item_plain, item_daily] 3)
       = (Inr [item_daily, item_plain], mgr [item_plain, item_daily] 3)
   \<and> mset [item_daily, item_plain]
       = mset (filter (\<lambda>todo. \<not> completed todo) (todos (mgr [item_plain, item_daily] 3)))"
proof -
  note inst = list_todos_sorts_in_place [of fromisoformat True False
      "mgr [item_plain, item_daily] 3" "[item_daily, item_plain]"
      "(mgr [item_plain, item_daily] 3)\<lparr>todos := [item_daily, item_plain]\<rparr>"
      "Inr [item_daily, item_plain]" "mgr [item_plain, item_daily] 3"]
  from inst list_all_example list_pending_example show ?thesis
    by (simp add: mgr_def pending_examples)
qed

text \<open>
  Claim C10 as stated fails without \<open>show_completed\<close>: the comprehension builds a new list,
  which is sorted and returned, and the stored list stays in its old order, here oldest
  first.
\<close>

theorem list_pending_counterexample:
  "fst (list_todos fromisoformat False False (mgr [item_plain, item_daily] 3))
     = Inr [item_daily, item_plain]
   \<and> todos (snd (list_todos fromisoformat False False (mgr [item_plain, item_daily] 3)))
     = [item_plain, item_daily]
   \<and> keys_of (created_key fromisoformat) [item_plain, item_daily]
       = Inr [(738886, 28800000000), (738887, 28800000000)]
   \<and> \<not> sorted (rev [(738886 :: int, 28800000000 :: nat), (738887, 28800000000)])
   \<and> [item_plain, item_daily] \<noteq> [item_daily, item_plain]"
proof -
  have "[item_plain, item_daily] \<noteq> [item_daily, item_plain]"
    by (simp add: item_plain_def item_daily_def)
  then show ?thesis
    by (simp add: list_pending_example created_key_examples) (simp add: mgr_def)
qed

end
